theory Spec2Isabelle
  imports Main "HOL-Library.Word"
begin

section \<open>Data model (models/user.go)\<close>

text \<open>
  A \<open>time.Time\<close> is modelled as an integer count of time units since Go's zero time, so
  that the zero value of the struct field is \<open>0\<close>. A \<open>float64\<close> is only ever copied by
  the code under study, never computed with: it is modelled by its 64-bit pattern.
  A Go pointer field (\<open>*string\<close>, \<open>*int\<close>, \<open>*time.Time\<close>) is an \<open>option\<close>: \<open>nil\<close> is
  \<open>None\<close>. The column \<open>deleted_at\<close> (\<open>gorm.DeletedAt\<close>) is \<open>None\<close> for SQL NULL.
\<close>

type_synonym timestamp = int
type_synonym float64 = "64 word"

record User =
  ID :: nat
  CreatedAt :: timestamp
  UpdatedAt :: timestamp
  DeletedAt :: "timestamp option"
  Username :: string
  Email :: string
  PasswordHash :: string
  Role :: string
  IsActive :: bool
  FullName :: "string option"
  Phone :: "string option"
  Address :: "string option"
  DateOfBirth :: "timestamp option"
  Gender :: "string option"
  ProfilePhoto :: "string option"
  EmployeeID :: "string option"
  Specialization :: "string option"
  Qualification :: "string option"
  ExperienceYears :: "int option"
  HireDate :: "timestamp option"
  Salary :: "float64 option"
  StudentID :: "string option"
  ClassLevel :: "string option"
  AcademicYear :: "string option"
  ParentName :: "string option"
  ParentPhone :: "string option"
  ParentEmail :: "string option"
  EnrollmentDate :: "timestamp option"
  GraduationDate :: "timestamp option"
  EmergencyContact :: "string option"
  EmergencyPhone :: "string option"
  MedicalConditions :: "string option"
  BloodType :: "string option"
  Status :: "string option"
  AdditionalData :: "string option"

text \<open>The fields of \<open>UserResponse\<close> carry the prefix \<open>resp_\<close>, since a field name
  is a constant of the theory and \<open>User\<close> has taken the plain names.\<close>

record UserResponse =
  resp_ID :: nat
  resp_CreatedAt :: timestamp
  resp_UpdatedAt :: timestamp
  resp_Username :: string
  resp_Email :: string
  resp_Role :: string
  resp_IsActive :: bool
  resp_FullName :: "string option"
  resp_Phone :: "string option"
  resp_Address :: "string option"
  resp_DateOfBirth :: "timestamp option"
  resp_Gender :: "string option"
  resp_ProfilePhoto :: "string option"
  resp_EmployeeID :: "string option"
  resp_Specialization :: "string option"
  resp_Qualification :: "string option"
  resp_ExperienceYears :: "int option"
  resp_HireDate :: "timestamp option"
  resp_StudentID :: "string option"
  resp_ClassLevel :: "string option"
  resp_AcademicYear :: "string option"
  resp_ParentName :: "string option"
  resp_ParentPhone :: "string option"
  resp_ParentEmail :: "string option"
  resp_EnrollmentDate :: "timestamp option"
  resp_GraduationDate :: "timestamp option"
  resp_EmergencyContact :: "string option"
  resp_EmergencyPhone :: "string option"
  resp_MedicalConditions :: "string option"
  resp_Status :: "string option"

text \<open>\<open>func (u *User) ToResponse() *UserResponse\<close>, field by field.\<close>

definition ToResponse :: "User \<Rightarrow> UserResponse" where
  "ToResponse u =
     \<lparr> resp_ID = ID u,
       resp_CreatedAt = CreatedAt u,
       resp_UpdatedAt = UpdatedAt u,
       resp_Username = Username u,
       resp_Email = Email u,
       resp_Role = Role u,
       resp_IsActive = IsActive u,
       resp_FullName = FullName u,
       resp_Phone = Phone u,
       resp_Address = Address u,
       resp_DateOfBirth = DateOfBirth u,
       resp_Gender = Gender u,
       resp_ProfilePhoto = ProfilePhoto u,
       resp_EmployeeID = EmployeeID u,
       resp_Specialization = Specialization u,
       resp_Qualification = Qualification u,
       resp_ExperienceYears = ExperienceYears u,
       resp_HireDate = HireDate u,
       resp_StudentID = StudentID u,
       resp_ClassLevel = ClassLevel u,
       resp_AcademicYear = AcademicYear u,
       resp_ParentName = ParentName u,
       resp_ParentPhone = ParentPhone u,
       resp_ParentEmail = ParentEmail u,
       resp_EnrollmentDate = EnrollmentDate u,
       resp_GraduationDate = GraduationDate u,
       resp_EmergencyContact = EmergencyContact u,
       resp_EmergencyPhone = EmergencyPhone u,
       resp_MedicalConditions = MedicalConditions u,
       resp_Status = Status u \<rparr>"

text \<open>The zero value of the struct (\<open>models.User{}\<close>).\<close>

definition zero_User :: User where
  "zero_User =
     \<lparr> ID = 0, CreatedAt = 0, UpdatedAt = 0, DeletedAt = None,
       Username = [], Email = [], PasswordHash = [], Role = [], IsActive = False,
       FullName = None, Phone = None, Address = None, DateOfBirth = None, Gender = None,
       ProfilePhoto = None,
       EmployeeID = None, Specialization = None, Qualification = None,
       ExperienceYears = None, HireDate = None, Salary = None,
       StudentID = None, ClassLevel = None, AcademicYear = None, ParentName = None,
       ParentPhone = None, ParentEmail = None, EnrollmentDate = None,
       GraduationDate = None,
       EmergencyContact = None, EmergencyPhone = None, MedicalConditions = None,
       BloodType = None, Status = None, AdditionalData = None \<rparr>"

section \<open>Errors\<close>

text \<open>
  A Go \<open>error\<close> value. \<open>Errorf m\<close> is \<open>fmt.Errorf\<close> of a message with no error argument,
  \<open>m\<close> being the text after formatting; \<open>Wrap p e\<close> is \<open>fmt.Errorf(p + "%v", e)\<close>, the
  message \<open>p\<close> followed by the text of \<open>e\<close>. The other constructors are the errors that
  the storage layer and the hashing library hand to the service: \<open>gorm.ErrRecordNotFound\<close>,
  a violated unique index (named by its column), a violated check constraint, a column
  that does not exist or does not take the value, and a failure of
  \<open>bcrypt.GenerateFromPassword\<close>.
\<close>

datatype error =
    Errorf string
  | Wrap string error
  | ErrRecordNotFound
  | ErrDuplicatedKey string
  | ErrCheckViolated string
  | ErrInvalidColumn string
  | ErrBcrypt

section \<open>Role validation\<close>

text \<open>The test \<open>p == nil || *p == ""\<close> that both validation functions apply to a
  required field.\<close>

definition nil_or_empty :: "string option \<Rightarrow> bool" where
  "nil_or_empty p = (case p of None \<Rightarrow> True | Some s \<Rightarrow> s = [])"

text \<open>\<open>func (s *UserService) ValidateRoleRequiredFields(user *models.User) error\<close>
  (services/user_service.go): \<open>None\<close> is the \<open>nil\<close> error.\<close>

definition ValidateRoleRequiredFields :: "User \<Rightarrow> error option" where
  "ValidateRoleRequiredFields user =
     (if Role user = ''teacher'' then
        (if nil_or_empty (EmployeeID user) then Some (Errorf ''employee_id is required for teachers'')
         else if nil_or_empty (Specialization user)
           then Some (Errorf ''specialization is required for teachers'')
         else None)
      else if Role user = ''student'' then
        (if nil_or_empty (StudentID user) then Some (Errorf ''student_id is required for students'')
         else if nil_or_empty (ClassLevel user)
           then Some (Errorf ''class_level is required for students'')
         else if nil_or_empty (ParentName user)
           then Some (Errorf ''parent_name is required for students'')
         else if nil_or_empty (ParentPhone user)
           then Some (Errorf ''parent_phone is required for students'')
         else None)
      else if Role user = ''admin'' then None
      else None)"

text \<open>\<open>func (u *User) ValidateForRole() error\<close> (models/user.go), the same switch, run
  by the \<open>BeforeCreate\<close> hook.\<close>

definition ValidateForRole :: "User \<Rightarrow> error option" where
  "ValidateForRole u =
     (if Role u = ''teacher'' then
        (if nil_or_empty (EmployeeID u) then Some (Errorf ''employee_id is required for teachers'')
         else if nil_or_empty (Specialization u)
           then Some (Errorf ''specialization is required for teachers'')
         else None)
      else if Role u = ''student'' then
        (if nil_or_empty (StudentID u) then Some (Errorf ''student_id is required for students'')
         else if nil_or_empty (ClassLevel u)
           then Some (Errorf ''class_level is required for students'')
         else if nil_or_empty (ParentName u)
           then Some (Errorf ''parent_name is required for students'')
         else if nil_or_empty (ParentPhone u)
           then Some (Errorf ''parent_phone is required for students'')
         else None)
      else if Role u = ''admin'' then None
      else None)"


text \<open>The GORM hooks of the model. \<open>BeforeUpdate\<close> validates only when the statement
  changes the column \<open>role\<close> (\<open>tx.Statement.Changed("Role")\<close>), which is passed as a flag.\<close>

definition BeforeCreate :: "User \<Rightarrow> error option" where
  "BeforeCreate u = ValidateForRole u"

definition BeforeUpdate :: "bool \<Rightarrow> User \<Rightarrow> error option" where
  "BeforeUpdate role_changed u = (if role_changed then ValidateForRole u else None)"

section \<open>The users table and the GORM statements the service issues\<close>

text \<open>
  The table is the list of its rows, tombstoned rows included. The statements below are
  the ones the service builds; each follows what GORM sends to PostgreSQL for the model
  \<open>User\<close>, whose field \<open>DeletedAt\<close> makes every query and update carry
  \<open>deleted_at IS NULL\<close> and turns \<open>Delete\<close> into an update of \<open>deleted_at\<close>.
  Of the schema in the struct tags the model keeps the primary key, the four unique
  indexes (\<open>username\<close>, \<open>email\<close>, \<open>employee_id\<close>, \<open>student_id\<close>; SQL NULLs never
  collide), the two check constraints (\<open>role\<close>, \<open>gender\<close>) and the three column
  defaults. Column sizes, the rounding of \<open>date\<close> and \<open>decimal\<close> columns and a lost
  connection are outside the model.
\<close>

type_synonym users_table = "User list"

text \<open>A value stored under a column name in a \<open>map[string]interface{}\<close>; a pointer is
  stored by the value it points to.\<close>

datatype sql_value = VString string | VInt int | VBool bool | VTime timestamp

text \<open>\<open>db.Where(cond).First(&user)\<close>:
  \<open>SELECT * FROM users WHERE cond AND deleted_at IS NULL ORDER BY id LIMIT 1\<close>.\<close>

definition db_First :: "(User \<Rightarrow> bool) \<Rightarrow> users_table \<Rightarrow> error + User" where
  "db_First cond tbl =
     (case find (\<lambda>u. cond u \<and> DeletedAt u = None) (sort_key ID tbl) of
        None \<Rightarrow> Inl ErrRecordNotFound
      | Some u \<Rightarrow> Inr u)"

text \<open>\<open>db.Model(&models.User{}).Where(cond).Count(&count)\<close>.\<close>

definition db_Count :: "(User \<Rightarrow> bool) \<Rightarrow> users_table \<Rightarrow> error + nat" where
  "db_Count cond tbl = Inr (length (filter (\<lambda>u. cond u \<and> DeletedAt u = None) tbl))"

text \<open>Writing one column of a row. The columns are those the service writes.\<close>

fun set_column :: "string \<Rightarrow> sql_value \<Rightarrow> User \<Rightarrow> User option" where
  "set_column c (VString s) u =
     (if c = ''full_name'' then Some (u\<lparr>FullName := Some s\<rparr>)
      else if c = ''phone'' then Some (u\<lparr>Phone := Some s\<rparr>)
      else if c = ''address'' then Some (u\<lparr>Address := Some s\<rparr>)
      else if c = ''gender'' then Some (u\<lparr>Gender := Some s\<rparr>)
      else if c = ''profile_photo'' then Some (u\<lparr>ProfilePhoto := Some s\<rparr>)
      else if c = ''employee_id'' then Some (u\<lparr>EmployeeID := Some s\<rparr>)
      else if c = ''student_id'' then Some (u\<lparr>StudentID := Some s\<rparr>)
      else if c = ''class_level'' then Some (u\<lparr>ClassLevel := Some s\<rparr>)
      else if c = ''academic_year'' then Some (u\<lparr>AcademicYear := Some s\<rparr>)
      else if c = ''parent_name'' then Some (u\<lparr>ParentName := Some s\<rparr>)
      else if c = ''parent_phone'' then Some (u\<lparr>ParentPhone := Some s\<rparr>)
      else if c = ''specialization'' then Some (u\<lparr>Specialization := Some s\<rparr>)
      else if c = ''emergency_contact'' then Some (u\<lparr>EmergencyContact := Some s\<rparr>)
      else if c = ''emergency_phone'' then Some (u\<lparr>EmergencyPhone := Some s\<rparr>)
      else if c = ''medical_conditions'' then Some (u\<lparr>MedicalConditions := Some s\<rparr>)
      else if c = ''status'' then Some (u\<lparr>Status := Some s\<rparr>)
      else None)"
| "set_column c (VInt i) u =
     (if c = ''experience_years'' then Some (u\<lparr>ExperienceYears := Some i\<rparr>) else None)"
| "set_column c (VBool b) u =
     (if c = ''is_active'' then Some (u\<lparr>IsActive := b\<rparr>) else None)"
| "set_column c (VTime t) u =
     (if c = ''date_of_birth'' then Some (u\<lparr>DateOfBirth := Some t\<rparr>) else None)"

text \<open>The \<open>SET\<close> clause of an update from a map: every entry of the map, then
  \<open>updated_at\<close>, which GORM adds to every update of a model that has the field.\<close>

fun set_columns :: "(string \<times> sql_value) list \<Rightarrow> User \<Rightarrow> error + User" where
  "set_columns [] u = Inr u"
| "set_columns ((c, v) # cvs) u =
     (case set_column c v u of
        None \<Rightarrow> Inl (ErrInvalidColumn c)
      | Some u' \<Rightarrow> set_columns cvs u')"

text \<open>The non-NULL values of a column.\<close>

definition non_null :: "(User \<Rightarrow> 'a option) \<Rightarrow> users_table \<Rightarrow> 'a list" where
  "non_null col tbl = List.map_filter col tbl"

definition role_check :: "User \<Rightarrow> bool" where
  "role_check u = (Role u \<in> set [''admin'', ''teacher'', ''student''])"

definition gender_check :: "User \<Rightarrow> bool" where
  "gender_check u = (case Gender u of None \<Rightarrow> True | Some g \<Rightarrow> g \<in> set [''male'', ''female''])"

text \<open>What PostgreSQL answers to an update that wrote the columns \<open>cols\<close> and left the
  table as \<open>tbl\<close>: of the columns the service updates, \<open>employee_id\<close> and \<open>student_id\<close>
  are uniquely indexed and \<open>gender\<close> is checked.\<close>

definition update_violation :: "string list \<Rightarrow> users_table \<Rightarrow> error option" where
  "update_violation cols tbl =
     (if ''employee_id'' \<in> set cols \<and> \<not> distinct (non_null EmployeeID tbl)
        then Some (ErrDuplicatedKey ''employee_id'')
      else if ''student_id'' \<in> set cols \<and> \<not> distinct (non_null StudentID tbl)
        then Some (ErrDuplicatedKey ''student_id'')
      else if ''gender'' \<in> set cols \<and> \<not> list_all gender_check tbl
        then Some (ErrCheckViolated ''gender'')
      else None)"

text \<open>\<open>db.Model(m).Where(cond).Updates(values)\<close> and \<open>.Update(column, value)\<close>:
  \<open>UPDATE users SET ..., updated_at = now WHERE cond AND deleted_at IS NULL\<close>, after
  the \<open>BeforeUpdate\<close> hook of the model value \<open>m\<close>. None of the service's updates
  writes \<open>role\<close>, so the hook is passed \<open>False\<close>. The result is the number of rows
  affected and the table after the statement; a statement that fails changes nothing.\<close>

definition db_Updates ::
  "User \<Rightarrow> (User \<Rightarrow> bool) \<Rightarrow> (string \<times> sql_value) list \<Rightarrow> timestamp \<Rightarrow> users_table
     \<Rightarrow> error + (nat \<times> users_table)" where
  "db_Updates m cond vals now tbl =
     (case BeforeUpdate False m of
        Some e \<Rightarrow> Inl e
      | None \<Rightarrow>
         (case set_columns vals zero_User of
            Inl e \<Rightarrow> Inl e
          | Inr _ \<Rightarrow>
             (let hit = (\<lambda>u. cond u \<and> DeletedAt u = None);
                  tbl' = map (\<lambda>u. if hit u
                                   then (case set_columns vals u of
                                           Inl _ \<Rightarrow> u
                                         | Inr u' \<Rightarrow> u'\<lparr>UpdatedAt := now\<rparr>)
                                   else u) tbl
              in case update_violation (map fst vals) tbl' of
                   Some e \<Rightarrow> Inl e
                 | None \<Rightarrow> Inr (length (filter hit tbl), tbl'))))"

text \<open>\<open>db.Delete(&models.User{}, id)\<close> on a model with \<open>gorm.DeletedAt\<close>:
  \<open>UPDATE users SET deleted_at = now WHERE cond AND deleted_at IS NULL\<close>.\<close>

definition db_Delete ::
  "(User \<Rightarrow> bool) \<Rightarrow> timestamp \<Rightarrow> users_table \<Rightarrow> error + (nat \<times> users_table)" where
  "db_Delete cond now tbl =
     (let hit = (\<lambda>u. cond u \<and> DeletedAt u = None)
      in Inr (length (filter hit tbl),
              map (\<lambda>u. if hit u then u\<lparr>DeletedAt := Some now\<rparr> else u) tbl))"

section \<open>Lookups, existence check, deactivation and deletion (services/user_service.go)\<close>

text \<open>Every service function takes the table as its last argument; one that writes
  returns the table it leaves. \<open>now\<close> is the value of the connection's \<open>NowFunc\<close> at the
  statement.\<close>

definition GetUserByID :: "nat \<Rightarrow> users_table \<Rightarrow> error + User" where
  "GetUserByID id' tbl =
     (case db_First (\<lambda>u. ID u = id') tbl of
        Inl e \<Rightarrow> (if e = ErrRecordNotFound then Inl (Errorf ''user not found'') else Inl e)
      | Inr user \<Rightarrow> Inr user)"

definition GetUserByUsername :: "string \<Rightarrow> users_table \<Rightarrow> error + User" where
  "GetUserByUsername username tbl =
     (case db_First (\<lambda>u. Username u = username \<and> IsActive u = True) tbl of
        Inl e \<Rightarrow> (if e = ErrRecordNotFound then Inl (Errorf ''user not found'') else Inl e)
      | Inr user \<Rightarrow> Inr user)"

definition GetUserByEmail :: "string \<Rightarrow> users_table \<Rightarrow> error + User" where
  "GetUserByEmail email tbl =
     (case db_First (\<lambda>u. Email u = email \<and> IsActive u = True) tbl of
        Inl e \<Rightarrow> (if e = ErrRecordNotFound then Inl (Errorf ''user not found'') else Inl e)
      | Inr user \<Rightarrow> Inr user)"

definition CheckUserExists :: "string \<Rightarrow> string \<Rightarrow> users_table \<Rightarrow> error + bool" where
  "CheckUserExists username email tbl =
     (case db_Count (\<lambda>u. Username u = username \<or> Email u = email) tbl of
        Inl e \<Rightarrow> Inl e
      | Inr count \<Rightarrow> Inr (count > 0))"

definition DeactivateUser :: "timestamp \<Rightarrow> nat \<Rightarrow> users_table \<Rightarrow> error option \<times> users_table" where
  "DeactivateUser now userID tbl =
     (case db_Updates zero_User (\<lambda>u. ID u = userID) [(''is_active'', VBool False)] now tbl of
        Inl e \<Rightarrow> (Some e, tbl)
      | Inr (rowsAffected, tbl') \<Rightarrow>
          if rowsAffected = 0 then (Some (Errorf ''user not found''), tbl') else (None, tbl'))"

definition ActivateUser :: "timestamp \<Rightarrow> nat \<Rightarrow> users_table \<Rightarrow> error option \<times> users_table" where
  "ActivateUser now userID tbl =
     (case db_Updates zero_User (\<lambda>u. ID u = userID) [(''is_active'', VBool True)] now tbl of
        Inl e \<Rightarrow> (Some e, tbl)
      | Inr (rowsAffected, tbl') \<Rightarrow>
          if rowsAffected = 0 then (Some (Errorf ''user not found''), tbl') else (None, tbl'))"

definition DeleteUser :: "timestamp \<Rightarrow> nat \<Rightarrow> users_table \<Rightarrow> error option \<times> users_table" where
  "DeleteUser now userID tbl =
     (case db_Delete (\<lambda>u. ID u = userID) now tbl of
        Inl e \<Rightarrow> (Some e, tbl)
      | Inr (rowsAffected, tbl') \<Rightarrow>
          if rowsAffected = 0 then (Some (Errorf ''user not found''), tbl') else (None, tbl'))"

section \<open>The rule table of the specification\<close>

text \<open>
  The specification gives role validation as a table: the required fields of each role
  in order, the message \<open><field> is required for <role>s\<close>, and a notion of a field
  being present. \<open>spec_validate\<close> follows these words, with the notion of presence as a
  parameter, and reports the first required field that is not present.
\<close>

definition spec_required_fields :: "string \<Rightarrow> (string \<times> (User \<Rightarrow> string option)) list" where
  "spec_required_fields role =
     (if role = ''teacher'' then
        [(''employee_id'', EmployeeID), (''specialization'', Specialization)]
      else if role = ''student'' then
        [(''student_id'', StudentID), (''class_level'', ClassLevel),
         (''parent_name'', ParentName), (''parent_phone'', ParentPhone)]
      else [])"

definition spec_validate :: "(string option \<Rightarrow> bool) \<Rightarrow> User \<Rightarrow> error option" where
  "spec_validate present u =
     (case find (\<lambda>(name, field). \<not> present (field u)) (spec_required_fields (Role u)) of
        None \<Rightarrow> None
      | Some (name, field) \<Rightarrow> Some (Errorf (name @ '' is required for '' @ Role u @ ''s'')))"

text \<open>Presence as the specification words it: non-null and non-empty after trimming
  (white space as \<open>strings.TrimSpace\<close> removes it from an ASCII string).\<close>

definition is_space :: "char \<Rightarrow> bool" where
  "is_space c = (c \<in> set [CHR 0x09, CHR 0x0A, CHR 0x0B, CHR 0x0C, CHR 0x0D, CHR '' ''])"

definition TrimSpace :: "string \<Rightarrow> string" where
  "TrimSpace s = rev (dropWhile is_space (rev (dropWhile is_space s)))"

definition present_after_trimming :: "string option \<Rightarrow> bool" where
  "present_after_trimming p = (case p of None \<Rightarrow> False | Some s \<Rightarrow> TrimSpace s \<noteq> [])"

text \<open>Presence without trimming: non-null and not the empty string.\<close>

definition present_non_empty :: "string option \<Rightarrow> bool" where
  "present_non_empty p = (case p of None \<Rightarrow> False | Some s \<Rightarrow> s \<noteq> [])"

text \<open>Records used as concrete inputs.\<close>

definition teacher_blank_id :: User where
  "teacher_blank_id =
     zero_User\<lparr>Role := ''teacher'', EmployeeID := Some '' '', Specialization := Some ''Math''\<rparr>"

definition student_full :: User where
  "student_full =
     zero_User\<lparr>ID := 7, Username := ''siti'', Email := ''siti@example.com'',
       PasswordHash := ''$2a$10$hash'', Role := ''student'', IsActive := True,
       StudentID := Some ''S-1'', ClassLevel := Some ''10A'', ParentName := Some ''Ali'',
       ParentPhone := Some ''0811111111'',
       EmployeeID := Some ''E-9'', Specialization := Some ''Fiqh'',
       Salary := Some 1, BloodType := Some ''O'', AdditionalData := Some ''{}''\<rparr>"

definition alice :: User where
  "alice = zero_User\<lparr>ID := 1, CreatedAt := 100, UpdatedAt := 100, Username := ''alice'',
     Email := ''alice@example.com'', PasswordHash := ''$2a$10$alice'', Role := ''admin'',
     IsActive := True\<rparr>"

definition bob :: User where
  "bob = zero_User\<lparr>ID := 2, CreatedAt := 110, UpdatedAt := 120, Username := ''bob'',
     Email := ''bob@example.com'', PasswordHash := ''$2a$10$bob'', Role := ''teacher'',
     IsActive := True, Address := Some ''Jl. Merdeka 1'',
     EmployeeID := Some ''E-2'', Specialization := Some ''Math''\<rparr>"

definition carol :: User where
  "carol = zero_User\<lparr>ID := 3, CreatedAt := 130, UpdatedAt := 130, Username := ''carol'',
     Email := ''carol@example.com'', PasswordHash := ''$2a$10$carol'', Role := ''student'',
     IsActive := False, Address := Some ''Jl. Melati 3'',
     StudentID := Some ''S-3'', ClassLevel := Some ''10A'', ParentName := Some ''Dewi'',
     ParentPhone := Some ''0822222222''\<rparr>"

definition sample_table :: users_table where
  "sample_table = [carol, alice, bob]"

section \<open>Partial update (services/user_service.go, UpdateUser)\<close>

text \<open>The fields of \<open>UpdateUserRequest\<close> carry the prefix \<open>upd_\<close>.\<close>

record UpdateUserRequest =
  upd_FullName :: "string option"
  upd_Phone :: "string option"
  upd_Address :: "string option"
  upd_DateOfBirth :: "timestamp option"
  upd_Gender :: "string option"
  upd_EmployeeID :: "string option"
  upd_StudentID :: "string option"
  upd_ClassLevel :: "string option"
  upd_AcademicYear :: "string option"
  upd_ParentName :: "string option"
  upd_ParentPhone :: "string option"
  upd_Specialization :: "string option"
  upd_ExperienceYears :: "int option"
  upd_EmergencyContact :: "string option"
  upd_EmergencyPhone :: "string option"
  upd_MedicalConditions :: "string option"
  upd_Status :: "string option"

text \<open>\<open>if req.F != nil { updateData[column] = req.F }\<close>: the entry that one such statement
  adds to the map.\<close>

definition entry :: "string \<Rightarrow> sql_value option \<Rightarrow> (string \<times> sql_value) list" where
  "entry column p = (case p of None \<Rightarrow> [] | Some v \<Rightarrow> [(column, v)])"

definition updateData :: "UpdateUserRequest \<Rightarrow> (string \<times> sql_value) list" where
  "updateData req =
     entry ''full_name'' (map_option VString (upd_FullName req))
     @ entry ''phone'' (map_option VString (upd_Phone req))
     @ entry ''address'' (map_option VString (upd_Address req))
     @ entry ''date_of_birth'' (map_option VTime (upd_DateOfBirth req))
     @ entry ''gender'' (map_option VString (upd_Gender req))
     @ entry ''employee_id'' (map_option VString (upd_EmployeeID req))
     @ entry ''student_id'' (map_option VString (upd_StudentID req))
     @ entry ''class_level'' (map_option VString (upd_ClassLevel req))
     @ entry ''academic_year'' (map_option VString (upd_AcademicYear req))
     @ entry ''parent_name'' (map_option VString (upd_ParentName req))
     @ entry ''parent_phone'' (map_option VString (upd_ParentPhone req))
     @ entry ''specialization'' (map_option VString (upd_Specialization req))
     @ entry ''experience_years'' (map_option VInt (upd_ExperienceYears req))
     @ entry ''emergency_contact'' (map_option VString (upd_EmergencyContact req))
     @ entry ''emergency_phone'' (map_option VString (upd_EmergencyPhone req))
     @ entry ''medical_conditions'' (map_option VString (upd_MedicalConditions req))
     @ entry ''status'' (map_option VString (upd_Status req))"

text \<open>
  \<open>func (s *UserService) UpdateUser(userID uint, req *models.UpdateUserRequest)\<close>.
  The update is \<open>s.db.Model(&user).Updates(updateData)\<close>, on the row with the primary key
  of \<open>user\<close>. The error of the final \<open>s.db.First(&user, userID)\<close> is dropped by the
  code: were the row not found, \<open>user\<close> would keep the values GORM assigned to it during
  the update.
\<close>

definition UpdateUser ::
  "timestamp \<Rightarrow> nat \<Rightarrow> UpdateUserRequest \<Rightarrow> users_table \<Rightarrow> (error + User) \<times> users_table" where
  "UpdateUser now userID req tbl =
     (case db_First (\<lambda>u. ID u = userID) tbl of
        Inl e \<Rightarrow>
          if e = ErrRecordNotFound then (Inl (Errorf ''user not found''), tbl) else (Inl e, tbl)
      | Inr user \<Rightarrow>
          (case db_Updates user (\<lambda>u. ID u = ID user) (updateData req) now tbl of
             Inl e \<Rightarrow> (Inl (Wrap ''failed to update user: '' e), tbl)
           | Inr (rowsAffected, tbl') \<Rightarrow>
               (case db_First (\<lambda>u. ID u = userID) tbl' of
                  Inl e \<Rightarrow>
                    (Inr (case set_columns (updateData req) user of
                            Inl e \<Rightarrow> user
                          | Inr user' \<Rightarrow> user'\<lparr>UpdatedAt := now\<rparr>), tbl')
                | Inr user' \<Rightarrow> (Inr user', tbl'))))"

text \<open>What a request field does to a stored field, in the words of the specification:
  a supplied value is applied, an absent one leaves the stored value.\<close>

definition supplied :: "'a option \<Rightarrow> 'a option \<Rightarrow> 'a option" where
  "supplied new old = (case new of None \<Rightarrow> old | Some v \<Rightarrow> Some v)"

definition phone_only :: UpdateUserRequest where
  "phone_only =
     \<lparr> upd_FullName = None, upd_Phone = Some ''08123456789'', upd_Address = None,
       upd_DateOfBirth = None, upd_Gender = None, upd_EmployeeID = None, upd_StudentID = None,
       upd_ClassLevel = None, upd_AcademicYear = None, upd_ParentName = None,
       upd_ParentPhone = None, upd_Specialization = None, upd_ExperienceYears = None,
       upd_EmergencyContact = None, upd_EmergencyPhone = None, upd_MedicalConditions = None,
       upd_Status = None \<rparr>"

text \<open>The row that the \<open>SET\<close> clause of \<open>UpdateUser\<close> leaves.\<close>

definition updated_row :: "timestamp \<Rightarrow> UpdateUserRequest \<Rightarrow> User \<Rightarrow> User" where
  "updated_row now req u =
     u\<lparr>FullName := supplied (upd_FullName req) (FullName u),
       Phone := supplied (upd_Phone req) (Phone u),
       Address := supplied (upd_Address req) (Address u),
       DateOfBirth := supplied (upd_DateOfBirth req) (DateOfBirth u),
       Gender := supplied (upd_Gender req) (Gender u),
       EmployeeID := supplied (upd_EmployeeID req) (EmployeeID u),
       StudentID := supplied (upd_StudentID req) (StudentID u),
       ClassLevel := supplied (upd_ClassLevel req) (ClassLevel u),
       AcademicYear := supplied (upd_AcademicYear req) (AcademicYear u),
       ParentName := supplied (upd_ParentName req) (ParentName u),
       ParentPhone := supplied (upd_ParentPhone req) (ParentPhone u),
       Specialization := supplied (upd_Specialization req) (Specialization u),
       ExperienceYears := supplied (upd_ExperienceYears req) (ExperienceYears u),
       EmergencyContact := supplied (upd_EmergencyContact req) (EmergencyContact u),
       EmergencyPhone := supplied (upd_EmergencyPhone req) (EmergencyPhone u),
       MedicalConditions := supplied (upd_MedicalConditions req) (MedicalConditions u),
       Status := supplied (upd_Status req) (Status u),
       UpdatedAt := now\<rparr>"

section \<open>Password policy and hashing (package utils)\<close>

text \<open>
  The password is the one string whose characters the code inspects. It is modelled by
  the sequence of its Unicode code points, which is what \<open>for _, char := range password\<close>
  yields on a string that is valid UTF-8; \<open>len(password)\<close> is then the number of bytes of
  the UTF-8 encoding of that sequence.
\<close>

type_synonym rune = nat

definition RuneLen :: "rune \<Rightarrow> nat" where
  "RuneLen r = (if r < 0x80 then 1 else if r < 0x800 then 2 else if r < 0x10000 then 3 else 4)"

definition len_bytes :: "rune list \<Rightarrow> nat" where
  "len_bytes s = sum_list (map RuneLen s)"

text \<open>
  The predicates of Go's package \<open>unicode\<close>. \<open>unicode.Upper\<close>, \<open>Lower\<close>, \<open>Digit\<close>,
  \<open>Punct\<close> and \<open>Symbol\<close> are the general categories Lu, Ll, Nd, P and S. For a code point up
  to \<open>MaxLatin1\<close> the package reads its \<open>properties\<close> table (and tests \<open>'0' <= r <= '9'\<close>
  for a digit); the table is written out below. For the code points above, the range
  tables of the package are not part of this repository: they are the parameter
  \<open>tables\<close>, which gives the general category of a code point.
\<close>

datatype category = Cat_Lu | Cat_Ll | Cat_Nd | Cat_P | Cat_S | Cat_other

type_synonym unicode_tables = "rune \<Rightarrow> category"

definition MaxLatin1 :: rune where
  "MaxLatin1 = 0xFF"

definition in_ranges :: "rune \<Rightarrow> (rune \<times> rune) list \<Rightarrow> bool" where
  "in_ranges r rs = list_ex (\<lambda>(lo, hi). lo \<le> r \<and> r \<le> hi) rs"

definition properties :: "rune \<Rightarrow> category" where
  "properties r =
     (if in_ranges r [(0x41, 0x5A), (0xC0, 0xD6), (0xD8, 0xDE)] then Cat_Lu
      else if in_ranges r [(0x61, 0x7A), (0xB5, 0xB5), (0xDF, 0xF6), (0xF8, 0xFF)] then Cat_Ll
      else if in_ranges r [(0x30, 0x39)] then Cat_Nd
      else if in_ranges r
          [(0x21, 0x23), (0x25, 0x2A), (0x2C, 0x2F), (0x3A, 0x3B), (0x3F, 0x40), (0x5B, 0x5D),
           (0x5F, 0x5F), (0x7B, 0x7B), (0x7D, 0x7D), (0xA1, 0xA1), (0xA7, 0xA7), (0xAB, 0xAB),
           (0xB6, 0xB7), (0xBB, 0xBB), (0xBF, 0xBF)] then Cat_P
      else if in_ranges r
          [(0x24, 0x24), (0x2B, 0x2B), (0x3C, 0x3E), (0x5E, 0x5E), (0x60, 0x60), (0x7C, 0x7C),
           (0x7E, 0x7E), (0xA2, 0xA6), (0xA8, 0xA9), (0xAC, 0xAC), (0xAE, 0xB1), (0xB4, 0xB4),
           (0xB8, 0xB8), (0xD7, 0xD7), (0xF7, 0xF7)] then Cat_S
      else Cat_other)"

definition IsUpper :: "unicode_tables \<Rightarrow> rune \<Rightarrow> bool" where
  "IsUpper tables r = (if r \<le> MaxLatin1 then properties r = Cat_Lu else tables r = Cat_Lu)"

definition IsLower :: "unicode_tables \<Rightarrow> rune \<Rightarrow> bool" where
  "IsLower tables r = (if r \<le> MaxLatin1 then properties r = Cat_Ll else tables r = Cat_Ll)"

definition IsDigit :: "unicode_tables \<Rightarrow> rune \<Rightarrow> bool" where
  "IsDigit tables r = (if r \<le> MaxLatin1 then 0x30 \<le> r \<and> r \<le> 0x39 else tables r = Cat_Nd)"

definition IsPunct :: "unicode_tables \<Rightarrow> rune \<Rightarrow> bool" where
  "IsPunct tables r = (if r \<le> MaxLatin1 then properties r = Cat_P else tables r = Cat_P)"

definition IsSymbol :: "unicode_tables \<Rightarrow> rune \<Rightarrow> bool" where
  "IsSymbol tables r = (if r \<le> MaxLatin1 then properties r = Cat_S else tables r = Cat_S)"

text \<open>The verbs of \<open>fmt\<close> that the messages use: \<open>%d\<close> of an integer and \<open>%v\<close> of a
  slice of strings.\<close>

definition digit :: "nat \<Rightarrow> char" where
  "digit n = ''0123456789'' ! n"

function decimal :: "nat \<Rightarrow> string" where
  "decimal n = (if n < 10 then [digit n] else decimal (n div 10) @ [digit (n mod 10)])"
  by pat_completeness auto
termination
  by (relation "measure (\<lambda>n. n)") auto

declare decimal.simps [simp del]

definition fmt_d :: "int \<Rightarrow> string" where
  "fmt_d i = (if i < 0 then ''-'' @ decimal (nat (- i)) else decimal (nat i))"

fun join_spaces :: "string list \<Rightarrow> string" where
  "join_spaces [] = []"
| "join_spaces [s] = s"
| "join_spaces (s # t # ss) = s @ '' '' @ join_spaces (t # ss)"

definition fmt_v :: "string list \<Rightarrow> string" where
  "fmt_v ss = ''['' @ join_spaces ss @ '']''"

record PasswordRequirements =
  MinLength :: int
  RequireUpper :: bool
  RequireLower :: bool
  RequireDigit :: bool
  RequireSpecial :: bool

definition DefaultPasswordRequirements :: PasswordRequirements where
  "DefaultPasswordRequirements =
     \<lparr> MinLength = 8, RequireUpper = True, RequireLower = True, RequireDigit = True,
       RequireSpecial = True \<rparr>"

text \<open>The loop over the characters of \<open>ValidatePassword\<close>, on the four flags
  \<open>(hasUpper, hasLower, hasDigit, hasSpecial)\<close>; the \<open>switch\<close> takes the first case that
  holds.\<close>

fun check_character_types ::
  "unicode_tables \<Rightarrow> rune list \<Rightarrow> bool \<times> bool \<times> bool \<times> bool \<Rightarrow> bool \<times> bool \<times> bool \<times> bool" where
  "check_character_types tables [] flags = flags"
| "check_character_types tables (char # rest) (hasUpper, hasLower, hasDigit, hasSpecial) =
     check_character_types tables rest
       (if IsUpper tables char then (True, hasLower, hasDigit, hasSpecial)
        else if IsLower tables char then (hasUpper, True, hasDigit, hasSpecial)
        else if IsDigit tables char then (hasUpper, hasLower, True, hasSpecial)
        else if IsPunct tables char \<or> IsSymbol tables char
          then (hasUpper, hasLower, hasDigit, True)
        else (hasUpper, hasLower, hasDigit, hasSpecial))"

definition ValidatePassword :: "unicode_tables \<Rightarrow> rune list \<Rightarrow> error option" where
  "ValidatePassword tables password =
     (let req = DefaultPasswordRequirements in
      if int (len_bytes password) < MinLength req then
        Some (Errorf (''password must be at least '' @ fmt_d (MinLength req)
                        @ '' characters long''))
      else
        (case check_character_types tables password (False, False, False, False) of
           (hasUpper, hasLower, hasDigit, hasSpecial) \<Rightarrow>
             (let errors =
                    (if RequireUpper req \<and> \<not> hasUpper
                       then [''at least one uppercase letter''] else [])
                    @ (if RequireLower req \<and> \<not> hasLower
                         then [''at least one lowercase letter''] else [])
                    @ (if RequireDigit req \<and> \<not> hasDigit
                         then [''at least one number''] else [])
                    @ (if RequireSpecial req \<and> \<not> hasSpecial
                         then [''at least one special character (!@#$%^&*)''] else [])
              in if length errors > 0
                 then Some (Errorf (''password must contain: '' @ fmt_v errors))
                 else None)))"

text \<open>\<open>HashPassword\<close>: \<open>bcrypt.GenerateFromPassword\<close> draws a salt and may fail; what it
  returns for a password is the parameter \<open>bcrypt\<close>.\<close>

definition HashPassword ::
  "unicode_tables \<Rightarrow> (rune list \<Rightarrow> error + string) \<Rightarrow> rune list \<Rightarrow> error + string" where
  "HashPassword tables bcrypt password =
     (case ValidatePassword tables password of
        Some err \<Rightarrow> Inl err
      | None \<Rightarrow>
          (case bcrypt password of
             Inl err \<Rightarrow> Inl (Wrap ''failed to hash password: '' err)
           | Inr hashedBytes \<Rightarrow> Inr hashedBytes))"

section \<open>Creation (services/user_service.go, CreateUser and BulkCreateUsers)\<close>

text \<open>The fields of \<open>CreateUserRequest\<close> carry the prefix \<open>creq_\<close>.\<close>

record CreateUserRequest =
  creq_Username :: string
  creq_Email :: string
  creq_Password :: "rune list"
  creq_Role :: string
  creq_FullName :: "string option"
  creq_Phone :: "string option"
  creq_Address :: "string option"
  creq_DateOfBirth :: "timestamp option"
  creq_Gender :: "string option"
  creq_EmployeeID :: "string option"
  creq_StudentID :: "string option"
  creq_ClassLevel :: "string option"
  creq_AcademicYear :: "string option"
  creq_ParentName :: "string option"
  creq_ParentPhone :: "string option"
  creq_Specialization :: "string option"

text \<open>
  The row that an \<open>INSERT\<close> of a \<open>User\<close> value stores. A zero \<open>ID\<close> is left to the
  sequence of the table, whose next value is the parameter \<open>serial\<close>; zero timestamps
  become \<open>now\<close>; a field whose tag has a \<open>default\<close> takes it when the field holds its
  zero value (\<open>is_active\<close>: \<open>true\<close>, \<open>experience_years\<close>: \<open>0\<close>, \<open>status\<close>: \<open>'active'\<close>).
  GORM writes these values back into the value it was given.
\<close>

definition with_defaults :: "timestamp \<Rightarrow> nat \<Rightarrow> User \<Rightarrow> User" where
  "with_defaults now serial user =
     user\<lparr>ID := (if ID user = 0 then serial else ID user),
          CreatedAt := (if CreatedAt user = 0 then now else CreatedAt user),
          UpdatedAt := (if UpdatedAt user = 0 then now else UpdatedAt user),
          IsActive := (if IsActive user = False then True else IsActive user),
          ExperienceYears := (case ExperienceYears user of None \<Rightarrow> Some 0 | Some n \<Rightarrow> Some n),
          Status := (case Status user of None \<Rightarrow> Some ''active'' | Some s \<Rightarrow> Some s)\<rparr>"

text \<open>What PostgreSQL answers to the insertion of \<open>row\<close> into \<open>tbl\<close>: the primary key, the
  four unique indexes (over all rows, tombstoned ones included) and the two checks.\<close>

definition insert_violation :: "users_table \<Rightarrow> User \<Rightarrow> error option" where
  "insert_violation tbl row =
     (if ID row \<in> set (map ID tbl) then Some (ErrDuplicatedKey ''id'')
      else if Username row \<in> set (map Username tbl) then Some (ErrDuplicatedKey ''username'')
      else if Email row \<in> set (map Email tbl) then Some (ErrDuplicatedKey ''email'')
      else if EmployeeID row \<noteq> None \<and> EmployeeID row \<in> set (map EmployeeID tbl)
        then Some (ErrDuplicatedKey ''employee_id'')
      else if StudentID row \<noteq> None \<and> StudentID row \<in> set (map StudentID tbl)
        then Some (ErrDuplicatedKey ''student_id'')
      else if \<not> role_check row then Some (ErrCheckViolated ''role'')
      else if \<not> gender_check row then Some (ErrCheckViolated ''gender'')
      else None)"

text \<open>One \<open>INSERT\<close> statement of several rows: the rows go in one after the other, those
  without an ID taking consecutive values of the sequence; the statement fails as a
  whole at the first row that violates a constraint.\<close>

fun insert_rows :: "timestamp \<Rightarrow> nat \<Rightarrow> User list \<Rightarrow> users_table \<Rightarrow> error + users_table" where
  "insert_rows now serial [] tbl = Inr tbl"
| "insert_rows now serial (user # users) tbl =
     (case insert_violation tbl (with_defaults now serial user) of
        Some e \<Rightarrow> Inl e
      | None \<Rightarrow>
          insert_rows now (if ID user = 0 then Suc serial else serial) users
            (tbl @ [with_defaults now serial user]))"

text \<open>The sequence after such a statement.\<close>

definition serial_after :: "nat \<Rightarrow> User list \<Rightarrow> nat" where
  "serial_after serial users = serial + length (filter (\<lambda>u. ID u = 0) users)"

text \<open>The first error among the \<open>BeforeCreate\<close> hooks of the values, which GORM runs
  before it builds the statement.\<close>

fun hooks_BeforeCreate :: "User list \<Rightarrow> error option" where
  "hooks_BeforeCreate [] = None"
| "hooks_BeforeCreate (user # users) =
     (case BeforeCreate user of Some e \<Rightarrow> Some e | None \<Rightarrow> hooks_BeforeCreate users)"

text \<open>\<open>db.Create(&user)\<close>: the created value and the table.\<close>

definition db_Create ::
  "timestamp \<Rightarrow> nat \<Rightarrow> User \<Rightarrow> users_table \<Rightarrow> error + (User \<times> users_table)" where
  "db_Create now serial user tbl =
     (case hooks_BeforeCreate [user] of
        Some e \<Rightarrow> Inl e
      | None \<Rightarrow>
          (case insert_rows now serial [user] tbl of
             Inl e \<Rightarrow> Inl e
           | Inr tbl' \<Rightarrow> Inr (with_defaults now serial user, tbl')))"

text \<open>
  \<open>db.CreateInBatches(&users, batchSize)\<close>. The library cuts the slice with
  \<open>for i := 0; i < len; i += batchSize\<close>, taking \<open>users[i:min(i+batchSize, len)]\<close>, and
  creates each piece with one \<open>INSERT\<close>; it runs the pieces inside one transaction, so
  that an error in any piece leaves the table as it was. The service passes the batch
  size 100; for a batch size of 0, where the loop of the library would not advance, the
  model cuts no piece.
\<close>

function batches :: "nat \<Rightarrow> nat \<Rightarrow> 'a list \<Rightarrow> 'a list list" where
  "batches i batchSize xs =
     (if i < length xs \<and> 0 < batchSize
      then take batchSize (drop i xs) # batches (i + batchSize) batchSize xs
      else [])"
  by pat_completeness auto
termination
  by (relation "measure (\<lambda>(i, batchSize, xs). length xs - i)") auto

declare batches.simps [simp del]

fun create_batches ::
  "timestamp \<Rightarrow> nat \<Rightarrow> User list list \<Rightarrow> users_table \<Rightarrow> error + users_table" where
  "create_batches now serial [] tbl = Inr tbl"
| "create_batches now serial (batch # rest) tbl =
     (case hooks_BeforeCreate batch of
        Some e \<Rightarrow> Inl e
      | None \<Rightarrow>
          (case insert_rows now serial batch tbl of
             Inl e \<Rightarrow> Inl e
           | Inr tbl' \<Rightarrow> create_batches now (serial_after serial batch) rest tbl'))"

definition db_CreateInBatches ::
  "timestamp \<Rightarrow> nat \<Rightarrow> User list \<Rightarrow> nat \<Rightarrow> users_table \<Rightarrow> error + users_table" where
  "db_CreateInBatches now serial users batchSize tbl =
     create_batches now serial (batches 0 batchSize users) tbl"

text \<open>\<open>func (s *UserService) CreateUser(req *models.CreateUserRequest)\<close>.\<close>

definition CreateUser ::
  "unicode_tables \<Rightarrow> (rune list \<Rightarrow> error + string) \<Rightarrow> timestamp \<Rightarrow> nat \<Rightarrow> CreateUserRequest
     \<Rightarrow> users_table \<Rightarrow> (error + User) \<times> users_table" where
  "CreateUser tables bcrypt now serial req tbl =
     (case CheckUserExists (creq_Username req) (creq_Email req) tbl of
        Inl err \<Rightarrow> (Inl err, tbl)
      | Inr exists \<Rightarrow>
          if exists then (Inl (Errorf ''username or email already exists''), tbl)
          else
            (case HashPassword tables bcrypt (creq_Password req) of
               Inl err \<Rightarrow> (Inl (Wrap ''failed to hash password: '' err), tbl)
             | Inr hashedPassword \<Rightarrow>
                 (let user = zero_User
                        \<lparr>Username := creq_Username req,
                         Email := creq_Email req,
                         PasswordHash := hashedPassword,
                         Role := creq_Role req,
                         IsActive := True,
                         FullName := creq_FullName req,
                         Phone := creq_Phone req,
                         Address := creq_Address req,
                         DateOfBirth := creq_DateOfBirth req,
                         Gender := creq_Gender req,
                         EmployeeID := creq_EmployeeID req,
                         StudentID := creq_StudentID req,
                         ClassLevel := creq_ClassLevel req,
                         AcademicYear := creq_AcademicYear req,
                         ParentName := creq_ParentName req,
                         ParentPhone := creq_ParentPhone req,
                         Specialization := creq_Specialization req\<rparr>
                  in case db_Create now serial user tbl of
                       Inl err \<Rightarrow> (Inl (Wrap ''failed to create user: '' err), tbl)
                     | Inr (user', tbl') \<Rightarrow> (Inr user', tbl'))))"

text \<open>\<open>func (s *UserService) BulkCreateUsers(users []models.User) error\<close>: the
  validation loop, \<open>i\<close> being the index of the first element of the list, then the
  creation in batches of 100.\<close>

fun validate_all :: "nat \<Rightarrow> User list \<Rightarrow> error option" where
  "validate_all i [] = None"
| "validate_all i (user # users) =
     (case ValidateRoleRequiredFields user of
        Some err \<Rightarrow>
          Some (Wrap (''validation failed for user '' @ fmt_d (int i + 1) @ '': '') err)
      | None \<Rightarrow> validate_all (i + 1) users)"

definition BulkCreateUsers ::
  "timestamp \<Rightarrow> nat \<Rightarrow> User list \<Rightarrow> users_table \<Rightarrow> error option \<times> users_table" where
  "BulkCreateUsers now serial users tbl =
     (case validate_all 0 users of
        Some err \<Rightarrow> (Some err, tbl)
      | None \<Rightarrow>
          (case db_CreateInBatches now serial users 100 tbl of
             Inl err \<Rightarrow> (Some (Wrap ''bulk create failed: '' err), tbl)
           | Inr tbl' \<Rightarrow> (None, tbl')))"

text \<open>The struct literal of \<open>CreateUser\<close>, as a function of the request and the hash.\<close>

definition assembled_user :: "CreateUserRequest \<Rightarrow> string \<Rightarrow> User" where
  "assembled_user req hashedPassword =
     zero_User
       \<lparr>Username := creq_Username req,
        Email := creq_Email req,
        PasswordHash := hashedPassword,
        Role := creq_Role req,
        IsActive := True,
        FullName := creq_FullName req,
        Phone := creq_Phone req,
        Address := creq_Address req,
        DateOfBirth := creq_DateOfBirth req,
        Gender := creq_Gender req,
        EmployeeID := creq_EmployeeID req,
        StudentID := creq_StudentID req,
        ClassLevel := creq_ClassLevel req,
        AcademicYear := creq_AcademicYear req,
        ParentName := creq_ParentName req,
        ParentPhone := creq_ParentPhone req,
        Specialization := creq_Specialization req\<rparr>"

text \<open>Concrete inputs for creation: tables that give no category above Latin-1 (the
  passwords below stay within it), a hashing function, and three requests for an admin
  whose passwords are \<open>abc\<close>, \<open>Aa1!\<close> followed by twice U+00E9, and \<open>Admin123!@#\<close>.\<close>

definition no_tables :: unicode_tables where
  "no_tables = (\<lambda>r. Cat_other)"

definition constant_hash :: "rune list \<Rightarrow> error + string" where
  "constant_hash = (\<lambda>password. Inr ''$2a$10$digest'')"

definition admin_request :: "string \<Rightarrow> string \<Rightarrow> rune list \<Rightarrow> CreateUserRequest" where
  "admin_request username email password =
     \<lparr> creq_Username = username, creq_Email = email, creq_Password = password,
       creq_Role = ''admin'', creq_FullName = None, creq_Phone = None, creq_Address = None,
       creq_DateOfBirth = None, creq_Gender = None, creq_EmployeeID = None,
       creq_StudentID = None, creq_ClassLevel = None, creq_AcademicYear = None,
       creq_ParentName = None, creq_ParentPhone = None, creq_Specialization = None \<rparr>"

definition request_taken :: CreateUserRequest where
  "request_taken = admin_request ''alice'' ''new@example.com'' [0x61, 0x62, 0x63]"

definition request_six_characters :: CreateUserRequest where
  "request_six_characters =
     admin_request ''dave'' ''dave@example.com'' [0x41, 0x61, 0x31, 0x21, 0xE9, 0xE9]"

definition request_conforming :: CreateUserRequest where
  "request_conforming =
     admin_request ''dave'' ''dave@example.com''
       [0x41, 0x64, 0x6D, 0x69, 0x6E, 0x31, 0x32, 0x33, 0x21, 0x40, 0x23]"

definition request_weak :: CreateUserRequest where
  "request_weak = admin_request ''dave'' ''dave@example.com'' [0x61, 0x62, 0x63]"






section \<open>The other writes, and sequences of writes\<close>

definition UpdateUserPhoto ::
  "timestamp \<Rightarrow> nat \<Rightarrow> string \<Rightarrow> users_table \<Rightarrow> error option \<times> users_table" where
  "UpdateUserPhoto now userID photoPath tbl =
     (case db_Updates zero_User (\<lambda>u. ID u = userID) [(''profile_photo'', VString photoPath)]
             now tbl of
        Inl e \<Rightarrow> (Some e, tbl)
      | Inr (rowsAffected, tbl') \<Rightarrow>
          if rowsAffected = 0 then (Some (Errorf ''user not found''), tbl') else (None, tbl'))"

text \<open>\<open>func SeedData() error\<close> (database/connection.go), which creates the first
  administrator with the password \<open>Admin123!@#\<close> when the count of users is zero; the
  code does not look at the error of the count.\<close>

definition SeedData ::
  "unicode_tables \<Rightarrow> (rune list \<Rightarrow> error + string) \<Rightarrow> timestamp \<Rightarrow> nat \<Rightarrow> users_table
     \<Rightarrow> error option \<times> users_table" where
  "SeedData tables bcrypt now serial tbl =
     (let userCount = (case db_Count (\<lambda>u. True) tbl of Inl e \<Rightarrow> 0 | Inr n \<Rightarrow> n) in
      if userCount = 0 then
        (case HashPassword tables bcrypt
                [0x41, 0x64, 0x6D, 0x69, 0x6E, 0x31, 0x32, 0x33, 0x21, 0x40, 0x23] of
           Inl err \<Rightarrow> (Some (Wrap ''failed to hash admin password: '' err), tbl)
         | Inr hashedPassword \<Rightarrow>
             (let adminUser = zero_User
                    \<lparr>Username := ''admin'',
                     Email := ''admin@pesantren.com'',
                     PasswordHash := hashedPassword,
                     Role := ''admin'',
                     IsActive := True,
                     FullName := Some ''System Administrator''\<rparr>
              in case db_Create now serial adminUser tbl of
                   Inl err \<Rightarrow> (Some (Wrap ''failed to create admin user: '' err), tbl)
                 | Inr (adminUser', tbl') \<Rightarrow> (None, tbl')))
      else (None, tbl))"

text \<open>The operations of the repository that write to the table, each with the values
  it is called with, and the table that a sequence of them leaves.\<close>

datatype operation =
    Op_CreateUser unicode_tables "rune list \<Rightarrow> error + string" timestamp nat CreateUserRequest
  | Op_UpdateUser timestamp nat UpdateUserRequest
  | Op_UpdateUserPhoto timestamp nat string
  | Op_DeactivateUser timestamp nat
  | Op_ActivateUser timestamp nat
  | Op_DeleteUser timestamp nat
  | Op_BulkCreateUsers timestamp nat "User list"
  | Op_SeedData unicode_tables "rune list \<Rightarrow> error + string" timestamp nat

fun apply_operation :: "operation \<Rightarrow> users_table \<Rightarrow> users_table" where
  "apply_operation (Op_CreateUser tables bcrypt now serial req) tbl =
     snd (CreateUser tables bcrypt now serial req tbl)"
| "apply_operation (Op_UpdateUser now userID req) tbl = snd (UpdateUser now userID req tbl)"
| "apply_operation (Op_UpdateUserPhoto now userID photoPath) tbl =
     snd (UpdateUserPhoto now userID photoPath tbl)"
| "apply_operation (Op_DeactivateUser now userID) tbl = snd (DeactivateUser now userID tbl)"
| "apply_operation (Op_ActivateUser now userID) tbl = snd (ActivateUser now userID tbl)"
| "apply_operation (Op_DeleteUser now userID) tbl = snd (DeleteUser now userID tbl)"
| "apply_operation (Op_BulkCreateUsers now serial users) tbl =
     snd (BulkCreateUsers now serial users tbl)"
| "apply_operation (Op_SeedData tables bcrypt now serial) tbl =
     snd (SeedData tables bcrypt now serial tbl)"

definition run :: "operation list \<Rightarrow> users_table \<Rightarrow> users_table" where
  "run ops tbl = fold apply_operation ops tbl"

text \<open>A user that is gone from every read: the table has rows with the ID, with the
  username and with the email, and every such row carries a tombstone.\<close>

definition hidden :: "nat \<Rightarrow> string \<Rightarrow> string \<Rightarrow> users_table \<Rightarrow> bool" where
  "hidden i n m tbl \<longleftrightarrow>
     i \<in> set (map ID tbl) \<and> n \<in> set (map Username tbl) \<and> m \<in> set (map Email tbl)
     \<and> list_all (\<lambda>v. (ID v = i \<or> Username v = n \<or> Email v = m) \<longrightarrow> DeletedAt v \<noteq> None) tbl"

text \<open>A change of rows that leaves ID, username and email and removes no tombstone.\<close>

definition keeps :: "(User \<Rightarrow> User) \<Rightarrow> bool" where
  "keeps g \<longleftrightarrow>
     (\<forall>v. ID (g v) = ID v \<and> Username (g v) = Username v \<and> Email (g v) = Email v
          \<and> (DeletedAt v \<noteq> None \<longrightarrow> DeletedAt (g v) \<noteq> None))"

text \<open>The unique indexes of the table.\<close>

definition indexes_hold :: "users_table \<Rightarrow> bool" where
  "indexes_hold tbl \<longleftrightarrow>
     distinct (map ID tbl) \<and> distinct (map Username tbl) \<and> distinct (map Email tbl)
     \<and> distinct (non_null EmployeeID tbl) \<and> distinct (non_null StudentID tbl)"

text \<open>A property of tables that every successful statement of the store preserves.\<close>

definition preserved :: "(users_table \<Rightarrow> bool) \<Rightarrow> bool" where
  "preserved Q \<longleftrightarrow>
     (\<forall>m cond vals now tbl k tbl'.
        Q tbl \<and> db_Updates m cond vals now tbl = Inr (k, tbl') \<longrightarrow> Q tbl')
     \<and> (\<forall>cond now tbl k tbl'. Q tbl \<and> db_Delete cond now tbl = Inr (k, tbl') \<longrightarrow> Q tbl')
     \<and> (\<forall>tbl row. Q tbl \<and> insert_violation tbl row = None \<longrightarrow> Q (tbl @ [row]))"

section \<open>Role validation against the rule table\<close>

lemma nil_or_empty_present: "nil_or_empty p = (\<not> present_non_empty p)"
  by (cases p) (simp_all add: nil_or_empty_def present_non_empty_def)

lemma spec_validate_teacher:
  "Role u = ''teacher'' \<Longrightarrow>
   spec_validate P u =
     (if \<not> P (EmployeeID u) then Some (Errorf ''employee_id is required for teachers'')
      else if \<not> P (Specialization u) then Some (Errorf ''specialization is required for teachers'')
      else None)"
  by (simp add: spec_validate_def spec_required_fields_def)

lemma spec_validate_student:
  "Role u = ''student'' \<Longrightarrow>
   spec_validate P u =
     (if \<not> P (StudentID u) then Some (Errorf ''student_id is required for students'')
      else if \<not> P (ClassLevel u) then Some (Errorf ''class_level is required for students'')
      else if \<not> P (ParentName u) then Some (Errorf ''parent_name is required for students'')
      else if \<not> P (ParentPhone u) then Some (Errorf ''parent_phone is required for students'')
      else None)"
  by (simp add: spec_validate_def spec_required_fields_def)

lemma spec_validate_other:
  "Role u \<noteq> ''teacher'' \<Longrightarrow> Role u \<noteq> ''student'' \<Longrightarrow> spec_validate P u = None"
  by (simp add: spec_validate_def spec_required_fields_def)

lemma ValidateForRole_eq: "ValidateForRole u = ValidateRoleRequiredFields u"
  by (simp add: ValidateForRole_def ValidateRoleRequiredFields_def)

lemma Validate_refines: "ValidateRoleRequiredFields u = spec_validate present_non_empty u"
proof -
  consider "Role u = ''teacher''" | "Role u = ''student''"
    | "Role u \<noteq> ''teacher''" "Role u \<noteq> ''student''" by blast
  then show ?thesis
  proof cases
    case 1
    then show ?thesis
      by (simp add: ValidateRoleRequiredFields_def spec_validate_teacher nil_or_empty_present)
  next
    case 2
    then show ?thesis
      by (simp add: ValidateRoleRequiredFields_def spec_validate_student nil_or_empty_present)
  next
    case 3
    then show ?thesis
      by (simp add: ValidateRoleRequiredFields_def spec_validate_other)
  qed
qed

text \<open>
  C1 (as stated), refuted: with presence taken after trimming, a teacher whose employee ID
  is a single blank has a missing required field, so the rule table signals
  \<open>employee_id is required for teachers\<close>; both validation functions of the code accept
  the record, since they compare with the empty string only.
\<close>

theorem C1_trimming_counterexample:
  "\<not> present_after_trimming (EmployeeID teacher_blank_id)
   \<and> spec_validate present_after_trimming teacher_blank_id
       = Some (Errorf ''employee_id is required for teachers'')
   \<and> ValidateRoleRequiredFields teacher_blank_id = None
   \<and> ValidateForRole teacher_blank_id = None"
  by (simp add: teacher_blank_id_def zero_User_def present_after_trimming_def TrimSpace_def
      is_space_def spec_validate_def spec_required_fields_def ValidateRoleRequiredFields_def
      ValidateForRole_def nil_or_empty_def)

text \<open>
  C1 (amended): a field counts as present iff it is non-null and not the empty string (no
  trimming). Then both validation functions agree with the rule table: validation of a
  teacher fails exactly when employee ID or specialization is absent, of a student exactly
  when student ID, class level, parent name or parent phone is absent, the error being
  \<open><field> is required for <role>s\<close> for the first absent field in that order, and
  validation of an admin never fails.
\<close>

theorem C1_role_validation:
  "ValidateRoleRequiredFields u = spec_validate present_non_empty u
   \<and> ValidateForRole u = spec_validate present_non_empty u
   \<and> (Role u = ''teacher'' \<longrightarrow>
        (ValidateRoleRequiredFields u \<noteq> None \<longleftrightarrow>
           \<not> present_non_empty (EmployeeID u) \<or> \<not> present_non_empty (Specialization u)))
   \<and> (Role u = ''student'' \<longrightarrow>
        (ValidateRoleRequiredFields u \<noteq> None \<longleftrightarrow>
           \<not> present_non_empty (StudentID u) \<or> \<not> present_non_empty (ClassLevel u)
           \<or> \<not> present_non_empty (ParentName u) \<or> \<not> present_non_empty (ParentPhone u)))
   \<and> (Role u = ''admin'' \<longrightarrow> ValidateRoleRequiredFields u = None)"
proof -
  have t: "Role u = ''teacher'' \<longrightarrow>
        (ValidateRoleRequiredFields u \<noteq> None \<longleftrightarrow>
           \<not> present_non_empty (EmployeeID u) \<or> \<not> present_non_empty (Specialization u))"
    by (simp add: Validate_refines spec_validate_teacher)
  have s: "Role u = ''student'' \<longrightarrow>
        (ValidateRoleRequiredFields u \<noteq> None \<longleftrightarrow>
           \<not> present_non_empty (StudentID u) \<or> \<not> present_non_empty (ClassLevel u)
           \<or> \<not> present_non_empty (ParentName u) \<or> \<not> present_non_empty (ParentPhone u))"
    by (simp add: Validate_refines spec_validate_student)
  have a: "Role u = ''admin'' \<longrightarrow> ValidateRoleRequiredFields u = None"
    by (simp add: Validate_refines spec_validate_other)
  from t s a show ?thesis
    using Validate_refines [of u] ValidateForRole_eq [of u] by simp
qed

theorem C1_role_validation_witness:
  "ValidateRoleRequiredFields (zero_User\<lparr>Role := ''teacher'', EmployeeID := Some ''E-1''\<rparr>)
     = Some (Errorf ''specialization is required for teachers'')
   \<and> ValidateRoleRequiredFields (student_full\<lparr>ParentName := Some []\<rparr>)
     = Some (Errorf ''parent_name is required for students'')
   \<and> ValidateRoleRequiredFields student_full = None
   \<and> ValidateRoleRequiredFields (zero_User\<lparr>Role := ''admin''\<rparr>) = None"
  using C1_role_validation [of "zero_User\<lparr>Role := ''teacher'', EmployeeID := Some ''E-1''\<rparr>"]
    C1_role_validation [of "student_full\<lparr>ParentName := Some []\<rparr>"]
    C1_role_validation [of student_full]
    C1_role_validation [of "zero_User\<lparr>Role := ''admin''\<rparr>"]
  by (simp add: student_full_def zero_User_def spec_validate_def spec_required_fields_def
      present_non_empty_def)

section \<open>View projection\<close>

text \<open>
  C2: the view projection never includes the password hash. The response type has no
  field for it, and the projection of a record does not depend on its password hash:
  whatever hash is stored, under any role and whichever fields are populated, the view
  is the same.
\<close>

theorem C2_projection_omits_password_hash:
  "ToResponse (u\<lparr>PasswordHash := h\<rparr>) = ToResponse u"
  by (simp add: ToResponse_def)




section \<open>Lemmas on the statements of the store\<close>

lemma insort_key_map_same:
  assumes "\<And>x. f (g x) = f x"
  shows "insort_key f (g x) (map g ys) = map g (insort_key f x ys)"
  by (induction ys) (simp_all add: assms)

lemma sort_key_map_same:
  assumes "\<And>x. f (g x) = f x"
  shows "sort_key f (map g xs) = map g (sort_key f xs)"
proof (induction xs)
  case Nil
  show ?case by simp
next
  case (Cons x xs)
  have "insort_key f (g x) (map g (sort_key f xs)) = map g (insort_key f x (sort_key f xs))"
    by (rule insort_key_map_same) (rule assms)
  with Cons show ?case by simp
qed

lemma find_Some_D: "find P xs = Some x \<Longrightarrow> x \<in> set xs \<and> P x"
  by (induction xs) (auto split: if_splits)

lemma find_map_same:
  assumes "\<And>x. P (g x) = P x"
  shows "find P (map g xs) = map_option g (find P xs)"
  by (induction xs) (simp_all add: assms)

lemma db_First_Inl_iff:
  "db_First cond tbl = Inl e \<longleftrightarrow>
     e = ErrRecordNotFound \<and> (\<forall>u\<in>set tbl. cond u \<longrightarrow> DeletedAt u \<noteq> None)"
proof (cases "find (\<lambda>u. cond u \<and> DeletedAt u = None) (sort_key ID tbl)")
  case None
  then have "\<forall>u\<in>set tbl. cond u \<longrightarrow> DeletedAt u \<noteq> None"
    by (simp add: find_None_iff)
  with None show ?thesis by (auto simp add: db_First_def)
next
  case (Some x)
  from find_Some_D [OF Some] have "x \<in> set tbl" "cond x" "DeletedAt x = None" by simp_all
  with Some show ?thesis by (auto simp add: db_First_def)
qed

lemma db_First_Inr_D:
  "db_First cond tbl = Inr u \<Longrightarrow> u \<in> set tbl \<and> cond u \<and> DeletedAt u = None"
  by (auto simp add: db_First_def split: option.splits dest: find_Some_D)

lemma db_First_map_same:
  assumes "\<And>x. ID (g x) = ID x" 
    and "\<And>x. (cond (g x) \<and> DeletedAt (g x) = None) = (cond x \<and> DeletedAt x = None)"
  shows "db_First cond (map g tbl) = map_sum (\<lambda>e. e) g (db_First cond tbl)"
proof -
  have "find (\<lambda>u. cond u \<and> DeletedAt u = None) (sort_key ID (map g tbl)) =
        map_option g (find (\<lambda>u. cond u \<and> DeletedAt u = None) (sort_key ID tbl))"
    by (simp add: sort_key_map_same assms(1) find_map_same assms(2))
  then show ?thesis
    by (simp add: db_First_def split: option.splits)
qed

lemma check_exists:
  "CheckUserExists username email tbl =
     Inr (\<exists>u\<in>set tbl. DeletedAt u = None \<and> (Username u = username \<or> Email u = email))"
proof -
  have "(0 < length (filter P tbl)) = (\<exists>u\<in>set tbl. P u)" for P :: "User \<Rightarrow> bool"
    by (simp add: filter_empty_conv)
  then show ?thesis
    by (auto simp add: CheckUserExists_def db_Count_def)
qed

lemma check_exists_active:
  "CheckUserExists username email (map (\<lambda>u. u\<lparr>IsActive := a u\<rparr>) tbl) =
   CheckUserExists username email tbl"
  by (simp add: check_exists)

lemma uniq_eq:
  assumes "distinct (map f xs)" "x \<in> set xs" "y \<in> set xs" "f x = f y"
  shows "x = y"
  using assms by (meson distinct_map inj_on_eq_iff)

lemma GetUserByID_Inr_D:
  "GetUserByID i tbl = Inr u \<Longrightarrow> u \<in> set tbl \<and> ID u = i \<and> DeletedAt u = None"
  by (auto simp add: GetUserByID_def split: sum.splits if_splits dest: db_First_Inr_D)

lemma GetUserByID_Inl_iff:
  "GetUserByID i tbl = Inl e \<longleftrightarrow>
     e = Errorf ''user not found'' \<and> (\<forall>u\<in>set tbl. ID u = i \<longrightarrow> DeletedAt u \<noteq> None)"
proof (cases "db_First (\<lambda>u. ID u = i) tbl")
  case (Inl e')
  then show ?thesis
    using db_First_Inl_iff [of "\<lambda>u. ID u = i" tbl e']
    by (auto simp add: GetUserByID_def)
next
  case (Inr x)
  from db_First_Inr_D [OF Inr] Inr show ?thesis
    by (auto simp add: GetUserByID_def)
qed

lemma GetUserByUsername_Inl_iff:
  "GetUserByUsername n tbl = Inl e \<longleftrightarrow>
     e = Errorf ''user not found'' \<and>
     (\<forall>u\<in>set tbl. Username u = n \<and> IsActive u \<longrightarrow> DeletedAt u \<noteq> None)"
proof (cases "db_First (\<lambda>u. Username u = n \<and> IsActive u = True) tbl")
  case (Inl e')
  then show ?thesis
    using db_First_Inl_iff [of "\<lambda>u. Username u = n \<and> IsActive u = True" tbl e']
    by (auto simp add: GetUserByUsername_def)
next
  case (Inr x)
  from db_First_Inr_D [OF Inr] Inr show ?thesis
    by (auto simp add: GetUserByUsername_def)
qed

lemma GetUserByEmail_Inl_iff:
  "GetUserByEmail n tbl = Inl e \<longleftrightarrow>
     e = Errorf ''user not found'' \<and>
     (\<forall>u\<in>set tbl. Email u = n \<and> IsActive u \<longrightarrow> DeletedAt u \<noteq> None)"
proof (cases "db_First (\<lambda>u. Email u = n \<and> IsActive u = True) tbl")
  case (Inl e')
  then show ?thesis
    using db_First_Inl_iff [of "\<lambda>u. Email u = n \<and> IsActive u = True" tbl e']
    by (auto simp add: GetUserByEmail_def)
next
  case (Inr x)
  from db_First_Inr_D [OF Inr] Inr show ?thesis
    by (auto simp add: GetUserByEmail_def)
qed

lemma GetUserByUsername_Inr_D:
  "GetUserByUsername n tbl = Inr u \<Longrightarrow>
     u \<in> set tbl \<and> Username u = n \<and> IsActive u \<and> DeletedAt u = None"
  by (auto simp add: GetUserByUsername_def split: sum.splits if_splits dest: db_First_Inr_D)

lemma GetUserByEmail_Inr_D:
  "GetUserByEmail n tbl = Inr u \<Longrightarrow>
     u \<in> set tbl \<and> Email u = n \<and> IsActive u \<and> DeletedAt u = None"
  by (auto simp add: GetUserByEmail_def split: sum.splits if_splits dest: db_First_Inr_D)

lemma GetUserByID_map_same:
  assumes "\<And>x. ID (g x) = ID x" and "\<And>x. DeletedAt (g x) = DeletedAt x"
  shows "GetUserByID i (map g tbl) = map_sum (\<lambda>e. e) g (GetUserByID i tbl)"
proof -
  have "db_First (\<lambda>u. ID u = i) (map g tbl) = map_sum (\<lambda>e. e) g (db_First (\<lambda>u. ID u = i) tbl)"
    by (rule db_First_map_same) (simp_all add: assms)
  then show ?thesis
    by (simp add: GetUserByID_def split: sum.splits)
qed

lemma length_filter_0: "(length (filter P xs) = 0) = (\<forall>x\<in>set xs. \<not> P x)"
  by (simp add: filter_empty_conv)

lemma map_if_same:
  assumes "\<forall>x\<in>set xs. \<not> P x"
  shows "map (\<lambda>x. if P x then f x else x) xs = xs"
  using assms by (induction xs) simp_all

lemma db_Updates_eq:
  assumes "\<And>u. set_columns vals u = Inr (F u)"
  shows "db_Updates m cond vals now tbl =
     (case update_violation (map fst vals)
             (map (\<lambda>u. if cond u \<and> DeletedAt u = None then (F u)\<lparr>UpdatedAt := now\<rparr> else u) tbl) of
        Some e \<Rightarrow> Inl e
      | None \<Rightarrow>
          Inr (length (filter (\<lambda>u. cond u \<and> DeletedAt u = None) tbl),
               map (\<lambda>u. if cond u \<and> DeletedAt u = None then (F u)\<lparr>UpdatedAt := now\<rparr> else u) tbl))"
  by (simp add: db_Updates_def BeforeUpdate_def assms Let_def cong: if_cong)

lemma set_is_active: "set_columns [(''is_active'', VBool b)] u = Inr (u\<lparr>IsActive := b\<rparr>)"
  by simp

lemma no_violation_is_active: "update_violation (map fst [(''is_active'', v)]) tbl = None"
  by (simp add: update_violation_def)

lemma DeactivateUser_eq:
  "DeactivateUser now i tbl =
     (if \<exists>u\<in>set tbl. ID u = i \<and> DeletedAt u = None
      then (None, map (\<lambda>u. if ID u = i \<and> DeletedAt u = None
                            then u\<lparr>IsActive := False, UpdatedAt := now\<rparr> else u) tbl)
      else (Some (Errorf ''user not found''), tbl))"
proof (cases "\<exists>u\<in>set tbl. ID u = i \<and> DeletedAt u = None")
  case True
  then have "length (filter (\<lambda>u. ID u = i \<and> DeletedAt u = None) tbl) \<noteq> 0"
    by (auto simp add: filter_empty_conv)
  with True show ?thesis
    unfolding DeactivateUser_def db_Updates_eq [of _ "\<lambda>u. u\<lparr>IsActive := False\<rparr>", OF set_is_active]
      no_violation_is_active
    by simp
next
  case False
  then have none: "\<forall>u\<in>set tbl. \<not> (ID u = i \<and> DeletedAt u = None)" by simp
  then have "length (filter (\<lambda>u. ID u = i \<and> DeletedAt u = None) tbl) = 0"
    by (simp only: length_filter_0)
  with False map_if_same [OF none] show ?thesis
    unfolding DeactivateUser_def db_Updates_eq [of _ "\<lambda>u. u\<lparr>IsActive := False\<rparr>", OF set_is_active]
      no_violation_is_active
    by simp
qed

lemma DeleteUser_eq:
  "DeleteUser now i tbl =
     (if \<exists>u\<in>set tbl. ID u = i \<and> DeletedAt u = None
      then (None, map (\<lambda>u. if ID u = i \<and> DeletedAt u = None
                            then u\<lparr>DeletedAt := Some now\<rparr> else u) tbl)
      else (Some (Errorf ''user not found''), tbl))"
proof (cases "\<exists>u\<in>set tbl. ID u = i \<and> DeletedAt u = None")
  case True
  then have "length (filter (\<lambda>u. ID u = i \<and> DeletedAt u = None) tbl) \<noteq> 0"
    by (auto simp add: filter_empty_conv)
  with True show ?thesis
    by (simp add: DeleteUser_def db_Delete_def)
next
  case False
  then have none: "\<forall>u\<in>set tbl. \<not> (ID u = i \<and> DeletedAt u = None)" by simp
  then have "length (filter (\<lambda>u. ID u = i \<and> DeletedAt u = None) tbl) = 0"
    by (simp only: length_filter_0)
  with False map_if_same [OF none] show ?thesis
    by (simp add: DeleteUser_def db_Delete_def)
qed

lemma hidden_after_map:
  assumes "distinct (map f tbl)" and "u \<in> set tbl" and "\<And>v. f (g v) = f v"
    and "\<not> (IsActive (g u) \<and> DeletedAt (g u) = None)"
  shows "\<forall>w\<in>set (map g tbl). f w = f u \<and> IsActive w \<longrightarrow> DeletedAt w \<noteq> None"
proof (intro ballI impI)
  fix w assume "w \<in> set (map g tbl)" and h: "f w = f u \<and> IsActive w"
  then obtain v where v: "v \<in> set tbl" "w = g v" by auto
  from h v(2) assms(3) have "f v = f u" by simp
  with assms(1) v(1) assms(2) have "v = u" by (rule uniq_eq)
  with h v(2) assms(4) show "DeletedAt w \<noteq> None" by simp
qed

lemma ball_mapI: "(\<And>v. v \<in> set xs \<Longrightarrow> P (g v)) \<Longrightarrow> \<forall>w\<in>set (map g xs). P w"
  by simp

lemma sample_lookup:
  "GetUserByID 2 sample_table = Inr bob"
  "distinct (map Username sample_table)" "distinct (map Email sample_table)"
  "GetUserByUsername ''bob'' sample_table = Inr bob"
  "Username bob = ''bob''" "Email bob = ''bob@example.com''"
  by (simp_all add: GetUserByID_def GetUserByUsername_def db_First_def sample_table_def
      alice_def bob_def carol_def zero_User_def)

section \<open>Existence check\<close>

text \<open>
  C6: the existence check returns true exactly when some record of the table (a row that
  carries no tombstone; tombstoned rows are hidden from every read) matches the username
  or the email, one of the two being enough. The active flag plays no part: setting the
  flags of the rows in any way leaves the answer unchanged, so inactive records count.
\<close>

theorem C6_existence_check:
  "CheckUserExists username email tbl =
     Inr (\<exists>u\<in>set tbl. DeletedAt u = None \<and> (Username u = username \<or> Email u = email))
   \<and> CheckUserExists username email (map (\<lambda>u. u\<lparr>IsActive := a u\<rparr>) tbl) =
     CheckUserExists username email tbl"
  by (simp add: check_exists)

theorem C6_existence_check_witness:
  "IsActive carol = False
   \<and> CheckUserExists ''nobody'' ''carol@example.com'' sample_table = Inr True
   \<and> CheckUserExists ''carol'' ''nobody@example.com'' sample_table = Inr True
   \<and> CheckUserExists ''nobody'' ''nobody@example.com'' sample_table = Inr False"
  using C6_existence_check [of "''nobody''" "''carol@example.com''" sample_table]
    C6_existence_check [of "''carol''" "''nobody@example.com''" sample_table]
    C6_existence_check [of "''nobody''" "''nobody@example.com''" sample_table]
  by (simp add: sample_table_def alice_def bob_def carol_def zero_User_def)

section \<open>Deactivation\<close>

text \<open>
  C4: in a table whose unique indexes on username and email hold, deactivating a user
  that lookup-by-ID finds succeeds, after which lookup-by-username and lookup-by-email for
  that user fail with \<open>user not found\<close>, while lookup-by-ID returns the record with
  \<open>is_active = false\<close> (and \<open>updated_at\<close> set by the update). In general a record
  returned by the by-username or by-email lookup has \<open>is_active = true\<close>, whereas
  lookup-by-ID ignores the flag: whatever the flags are set to, it finds the same row.
\<close>

theorem C4_deactivation_lockout:
  "(distinct (map Username tbl) \<and> distinct (map Email tbl) \<and> GetUserByID i tbl = Inr u \<longrightarrow>
      (\<exists>tbl'. DeactivateUser now i tbl = (None, tbl')
         \<and> GetUserByUsername (Username u) tbl' = Inl (Errorf ''user not found'')
         \<and> GetUserByEmail (Email u) tbl' = Inl (Errorf ''user not found'')
         \<and> GetUserByID i tbl' = Inr (u\<lparr>IsActive := False, UpdatedAt := now\<rparr>)))
   \<and> (\<forall>v. GetUserByUsername n tbl = Inr v \<longrightarrow> IsActive v = True \<and> Username v = n)
   \<and> (\<forall>v. GetUserByEmail m tbl = Inr v \<longrightarrow> IsActive v = True \<and> Email v = m)
   \<and> GetUserByID i (map (\<lambda>v. v\<lparr>IsActive := a v\<rparr>) tbl)
       = map_sum (\<lambda>e. e) (\<lambda>v. v\<lparr>IsActive := a v\<rparr>) (GetUserByID i tbl)"
proof -
  let ?g = "\<lambda>v. if ID v = i \<and> DeletedAt v = None
                 then v\<lparr>IsActive := False, UpdatedAt := now\<rparr> else v"
  have lockout: "\<exists>tbl'. DeactivateUser now i tbl = (None, tbl')
         \<and> GetUserByUsername (Username u) tbl' = Inl (Errorf ''user not found'')
         \<and> GetUserByEmail (Email u) tbl' = Inl (Errorf ''user not found'')
         \<and> GetUserByID i tbl' = Inr (u\<lparr>IsActive := False, UpdatedAt := now\<rparr>)"
    if dn: "distinct (map Username tbl)" and de: "distinct (map Email tbl)"
      and found: "GetUserByID i tbl = Inr u"
  proof -
    from GetUserByID_Inr_D [OF found]
    have u: "u \<in> set tbl" "ID u = i" "DeletedAt u = None" by simp_all
    then have run: "DeactivateUser now i tbl = (None, map ?g tbl)"
      by (auto simp add: DeactivateUser_eq)
    have by_id: "GetUserByID i (map ?g tbl) = Inr (u\<lparr>IsActive := False, UpdatedAt := now\<rparr>)"
      using u by (simp add: GetUserByID_map_same [of ?g] found)
    have by_name: "GetUserByUsername (Username u) (map ?g tbl) = Inl (Errorf ''user not found'')"
      by (rule iffD2 [OF GetUserByUsername_Inl_iff, OF conjI [OF refl]],
          rule hidden_after_map [OF dn u(1)]) (simp_all add: u)
    have by_mail: "GetUserByEmail (Email u) (map ?g tbl) = Inl (Errorf ''user not found'')"
      by (rule iffD2 [OF GetUserByEmail_Inl_iff, OF conjI [OF refl]],
          rule hidden_after_map [OF de u(1)]) (simp_all add: u)
    from run by_id by_name by_mail show ?thesis by blast
  qed
  have name: "\<forall>v. GetUserByUsername n tbl = Inr v \<longrightarrow> IsActive v = True \<and> Username v = n"
    using GetUserByUsername_Inr_D by blast
  have mail: "\<forall>v. GetUserByEmail m tbl = Inr v \<longrightarrow> IsActive v = True \<and> Email v = m"
    using GetUserByEmail_Inr_D by blast
  have flag: "GetUserByID i (map (\<lambda>v. v\<lparr>IsActive := a v\<rparr>) tbl)
       = map_sum (\<lambda>e. e) (\<lambda>v. v\<lparr>IsActive := a v\<rparr>) (GetUserByID i tbl)"
    by (rule GetUserByID_map_same) simp_all
  from lockout name mail flag show ?thesis by blast
qed

theorem C4_deactivation_lockout_witness:
  "GetUserByUsername ''bob'' sample_table = Inr bob
   \<and> (\<exists>tbl'. DeactivateUser 200 2 sample_table = (None, tbl')
         \<and> GetUserByUsername ''bob'' tbl' = Inl (Errorf ''user not found'')
         \<and> GetUserByEmail ''bob@example.com'' tbl' = Inl (Errorf ''user not found'')
         \<and> GetUserByID 2 tbl' = Inr (bob\<lparr>IsActive := False, UpdatedAt := 200\<rparr>))"
  using C4_deactivation_lockout [of sample_table 2 bob 200 "''bob''" "''bob@example.com''" "\<lambda>_. True"]
  by (simp add: sample_lookup)

section \<open>Partial update\<close>

lemma set_columns_append:
  "set_columns (xs @ ys) u =
     (case set_columns xs u of Inl e \<Rightarrow> Inl e | Inr u' \<Rightarrow> set_columns ys u')"
  by (induction xs arbitrary: u) (auto split: option.splits)

lemma entry_string:
  "set_columns (entry ''full_name'' (map_option VString p) @ cvs) u
     = set_columns cvs (u\<lparr>FullName := supplied p (FullName u)\<rparr>)"
  "set_columns (entry ''phone'' (map_option VString p) @ cvs) u
     = set_columns cvs (u\<lparr>Phone := supplied p (Phone u)\<rparr>)"
  "set_columns (entry ''address'' (map_option VString p) @ cvs) u
     = set_columns cvs (u\<lparr>Address := supplied p (Address u)\<rparr>)"
  "set_columns (entry ''gender'' (map_option VString p) @ cvs) u
     = set_columns cvs (u\<lparr>Gender := supplied p (Gender u)\<rparr>)"
  "set_columns (entry ''employee_id'' (map_option VString p) @ cvs) u
     = set_columns cvs (u\<lparr>EmployeeID := supplied p (EmployeeID u)\<rparr>)"
  "set_columns (entry ''student_id'' (map_option VString p) @ cvs) u
     = set_columns cvs (u\<lparr>StudentID := supplied p (StudentID u)\<rparr>)"
  "set_columns (entry ''class_level'' (map_option VString p) @ cvs) u
     = set_columns cvs (u\<lparr>ClassLevel := supplied p (ClassLevel u)\<rparr>)"
  "set_columns (entry ''academic_year'' (map_option VString p) @ cvs) u
     = set_columns cvs (u\<lparr>AcademicYear := supplied p (AcademicYear u)\<rparr>)"
  "set_columns (entry ''parent_name'' (map_option VString p) @ cvs) u
     = set_columns cvs (u\<lparr>ParentName := supplied p (ParentName u)\<rparr>)"
  "set_columns (entry ''parent_phone'' (map_option VString p) @ cvs) u
     = set_columns cvs (u\<lparr>ParentPhone := supplied p (ParentPhone u)\<rparr>)"
  "set_columns (entry ''specialization'' (map_option VString p) @ cvs) u
     = set_columns cvs (u\<lparr>Specialization := supplied p (Specialization u)\<rparr>)"
  "set_columns (entry ''emergency_contact'' (map_option VString p) @ cvs) u
     = set_columns cvs (u\<lparr>EmergencyContact := supplied p (EmergencyContact u)\<rparr>)"
  "set_columns (entry ''emergency_phone'' (map_option VString p) @ cvs) u
     = set_columns cvs (u\<lparr>EmergencyPhone := supplied p (EmergencyPhone u)\<rparr>)"
  "set_columns (entry ''medical_conditions'' (map_option VString p) @ cvs) u
     = set_columns cvs (u\<lparr>MedicalConditions := supplied p (MedicalConditions u)\<rparr>)"
  "set_columns (entry ''status'' (map_option VString p) @ cvs) u
     = set_columns cvs (u\<lparr>Status := supplied p (Status u)\<rparr>)"
  by (cases p; simp add: entry_def supplied_def)+

lemma entry_other:
  "set_columns (entry ''date_of_birth'' (map_option VTime t) @ cvs) u
     = set_columns cvs (u\<lparr>DateOfBirth := supplied t (DateOfBirth u)\<rparr>)"
  "set_columns (entry ''experience_years'' (map_option VInt n) @ cvs) u
     = set_columns cvs (u\<lparr>ExperienceYears := supplied n (ExperienceYears u)\<rparr>)"
  by (simp_all add: entry_def supplied_def split: option.splits)

lemma set_columns_updateData:
  "set_columns (updateData req) u = Inr ((updated_row now req u)\<lparr>UpdatedAt := UpdatedAt u\<rparr>)"
proof -
  have last: "set_columns (entry ''status'' (map_option VString p)) v
     = Inr (v\<lparr>Status := supplied p (Status v)\<rparr>)" for p v
    using entry_string(15) [of p "[]" v] by simp
  show ?thesis
    by (simp add: updateData_def updated_row_def entry_string entry_other last)
qed

lemma GetUserByID_Inr_iff:
  "GetUserByID i tbl = Inr u \<longleftrightarrow> db_First (\<lambda>u. ID u = i) tbl = Inr u"
  by (simp add: GetUserByID_def split: sum.splits)

lemma updated_row_keeps [simp]:
  "ID (updated_row now req v) = ID v"
  "DeletedAt (updated_row now req v) = DeletedAt v"
  by (simp_all add: updated_row_def)

lemma updated_row_twice [simp]:
  "(updated_row now req v)\<lparr>UpdatedAt := now\<rparr> = updated_row now req v"
  by (simp add: updated_row_def)

lemma db_Updates_updateData:
  "db_Updates m cond (updateData req) now tbl =
     (case update_violation (map fst (updateData req))
             (map (\<lambda>v. if cond v \<and> DeletedAt v = None then updated_row now req v else v) tbl) of
        Some e \<Rightarrow> Inl e
      | None \<Rightarrow>
          Inr (length (filter (\<lambda>v. cond v \<and> DeletedAt v = None) tbl),
               map (\<lambda>v. if cond v \<and> DeletedAt v = None then updated_row now req v else v) tbl))"
proof -
  have eq: "(updated_row now req v)\<lparr>UpdatedAt := UpdatedAt v\<rparr>\<lparr>UpdatedAt := now\<rparr>
              = updated_row now req v" for v
    by (simp add: updated_row_def)
  show ?thesis
    using db_Updates_eq [of "updateData req"
        "\<lambda>v. (updated_row now req v)\<lparr>UpdatedAt := UpdatedAt v\<rparr>" m cond now tbl,
        OF set_columns_updateData]
    unfolding eq .
qed

lemma UpdateUser_found:
  assumes "GetUserByID i tbl = Inr u"
  shows "UpdateUser now i req tbl =
     (case update_violation (map fst (updateData req))
             (map (\<lambda>v. if ID v = i \<and> DeletedAt v = None then updated_row now req v else v) tbl) of
        Some e \<Rightarrow> (Inl (Wrap ''failed to update user: '' e), tbl)
      | None \<Rightarrow>
          (Inr (updated_row now req u),
           map (\<lambda>v. if ID v = i \<and> DeletedAt v = None then updated_row now req v else v) tbl))"
proof -
  let ?g = "\<lambda>v. if ID v = i \<and> DeletedAt v = None then updated_row now req v else v"
  from assms have first: "db_First (\<lambda>u. ID u = i) tbl = Inr u"
    by (simp add: GetUserByID_Inr_iff)
  from GetUserByID_Inr_D [OF assms] have u: "ID u = i" "DeletedAt u = None" by simp_all
  have "db_First (\<lambda>u. ID u = i) (map ?g tbl) = map_sum (\<lambda>e. e) ?g (db_First (\<lambda>u. ID u = i) tbl)"
    by (rule db_First_map_same) simp_all
  with first u have again: "db_First (\<lambda>u. ID u = i) (map ?g tbl) = Inr (updated_row now req u)"
    by simp
  show ?thesis
    by (simp add: UpdateUser_def first u db_Updates_updateData again split: option.splits)
qed

lemma UpdateUser_not_found:
  assumes "GetUserByID i tbl = Inl e"
  shows "UpdateUser now i req tbl = (Inl (Errorf ''user not found''), tbl)"
proof -
  from assms have "db_First (\<lambda>u. ID u = i) tbl = Inl ErrRecordNotFound"
    by (auto simp add: GetUserByID_def db_First_Inl_iff split: sum.splits)
  then show ?thesis
    by (simp add: UpdateUser_def)
qed

lemma fst_entry: "c' \<in> set (map fst (entry c p)) \<longleftrightarrow> c' = c \<and> p \<noteq> None"
  by (cases p) (auto simp add: entry_def)

lemma updateData_columns:
  "''gender'' \<in> set (map fst (updateData req)) \<longleftrightarrow> upd_Gender req \<noteq> None"
  "''employee_id'' \<in> set (map fst (updateData req)) \<longleftrightarrow> upd_EmployeeID req \<noteq> None"
  "''student_id'' \<in> set (map fst (updateData req)) \<longleftrightarrow> upd_StudentID req \<noteq> None"
  unfolding updateData_def map_append set_append Un_iff fst_entry
  by simp_all

lemma update_accepted:
  assumes "upd_Gender req = None" "upd_EmployeeID req = None" "upd_StudentID req = None"
  shows "update_violation (map fst (updateData req)) tbl' = None"
  unfolding update_violation_def updateData_columns using assms by simp

lemma sample_carol:
  "GetUserByID 3 sample_table = Inr carol"
  "GetUserByID 9 sample_table = Inl (Errorf ''user not found'')"
  by (simp_all add: GetUserByID_def db_First_def sample_table_def
      alice_def bob_def carol_def zero_User_def)

lemma carol_fields:
  "Phone carol = None" "Address carol = Some ''Jl. Melati 3''" "ClassLevel carol = Some ''10A''"
  "UpdatedAt carol = 130" "Username carol = ''carol''" "PasswordHash carol = ''$2a$10$carol''"
  "Role carol = ''student''" "IsActive carol = False"
  by (simp_all add: carol_def zero_User_def)

lemma phone_only_fields:
  "upd_Phone phone_only = Some ''08123456789''" "upd_Address phone_only = None"
  "upd_ClassLevel phone_only = None" "upd_Gender phone_only = None"
  "upd_EmployeeID phone_only = None" "upd_StudentID phone_only = None"
  by (simp_all add: phone_only_def)

lemma phone_update_succeeds:
  "\<exists>u' tbl'. UpdateUser 500 3 phone_only sample_table = (Inr u', tbl')"
  by (simp add: UpdateUser_found [OF sample_carol(1)] update_accepted phone_only_fields)



text \<open>
  C10: for every table, ID and partial update request, the update leaves ID, username,
  email, password hash, role, active flag and creation timestamp of every row as they
  were, and the record it returns has those of the record found before the update.
\<close>

theorem C10_update_keeps_identity:
  "map (\<lambda>v. (ID v, Username v, Email v, PasswordHash v, Role v, IsActive v, CreatedAt v))
       (snd (UpdateUser now i req tbl))
     = map (\<lambda>v. (ID v, Username v, Email v, PasswordHash v, Role v, IsActive v, CreatedAt v)) tbl
   \<and> (GetUserByID i tbl = Inr u \<and> fst (UpdateUser now i req tbl) = Inr u' \<longrightarrow>
        ID u' = ID u \<and> Username u' = Username u \<and> Email u' = Email u
        \<and> PasswordHash u' = PasswordHash u \<and> Role u' = Role u
        \<and> IsActive u' = IsActive u \<and> CreatedAt u' = CreatedAt u)"
proof (cases "GetUserByID i tbl")
  case (Inl e)
  then show ?thesis
    by (simp add: UpdateUser_not_found)
next
  case (Inr w)
  let ?g = "\<lambda>v. if ID v = i \<and> DeletedAt v = None then updated_row now req v else v"
  let ?ident = "\<lambda>v. (ID v, Username v, Email v, PasswordHash v, Role v, IsActive v, CreatedAt v)"
  have same: "?ident (?g v) = ?ident v" for v
    by (simp add: updated_row_def)
  have rows: "map ?ident (map ?g tbl) = map ?ident tbl"
    unfolding map_map comp_def same ..
  have row: "?ident (updated_row now req w) = ?ident w"
    by (simp add: updated_row_def)
  show ?thesis
  proof (cases "update_violation (map fst (updateData req)) (map ?g tbl)")
    case None
    with Inr rows row show ?thesis
      by (auto simp add: UpdateUser_found simp del: map_map)
  next
    case (Some e)
    with Inr show ?thesis
      by (simp add: UpdateUser_found)
  qed
qed

theorem C10_update_keeps_identity_witness:
  "GetUserByID 3 sample_table = Inr carol
   \<and> (\<exists>u'. fst (UpdateUser 500 3 phone_only sample_table) = Inr u'
         \<and> Username u' = ''carol'' \<and> PasswordHash u' = ''$2a$10$carol''
         \<and> Role u' = ''student'' \<and> IsActive u' = False)"
proof -
  from phone_update_succeeds obtain u' tbl'
    where run: "UpdateUser 500 3 phone_only sample_table = (Inr u', tbl')" by blast
  then have "fst (UpdateUser 500 3 phone_only sample_table) = Inr u'" by simp
  with C10_update_keeps_identity [of 500 3 phone_only sample_table carol u'] sample_carol(1)
  show ?thesis by (simp add: carol_fields)
qed

section \<open>Password policy and creation\<close>

lemma check_character_types_flags:
  "check_character_types T pw (a, b, c, d) =
     (a \<or> list_ex (IsUpper T) pw,
      b \<or> list_ex (\<lambda>r. \<not> IsUpper T r \<and> IsLower T r) pw,
      c \<or> list_ex (\<lambda>r. \<not> IsUpper T r \<and> \<not> IsLower T r \<and> IsDigit T r) pw,
      d \<or> list_ex (\<lambda>r. \<not> IsUpper T r \<and> \<not> IsLower T r \<and> \<not> IsDigit T r
                       \<and> (IsPunct T r \<or> IsSymbol T r)) pw)"
  by (induction pw arbitrary: a b c d) auto

lemma digit_property: "r \<le> MaxLatin1 \<Longrightarrow> (0x30 \<le> r \<and> r \<le> 0x39) = (properties r = Cat_Nd)"
  by (auto simp add: properties_def in_ranges_def MaxLatin1_def)

lemma classes_exclusive:
  "IsLower T r \<Longrightarrow> \<not> IsUpper T r"
  "IsDigit T r \<Longrightarrow> \<not> IsUpper T r \<and> \<not> IsLower T r"
  "IsPunct T r \<or> IsSymbol T r \<Longrightarrow> \<not> IsUpper T r \<and> \<not> IsLower T r \<and> \<not> IsDigit T r"
  by (cases "r \<le> MaxLatin1"; auto simp add: IsUpper_def IsLower_def IsDigit_def IsPunct_def
      IsSymbol_def digit_property)+

lemma list_ex_classes:
  "list_ex (\<lambda>r. \<not> IsUpper T r \<and> IsLower T r) pw = list_ex (IsLower T) pw"
  "list_ex (\<lambda>r. \<not> IsUpper T r \<and> \<not> IsLower T r \<and> IsDigit T r) pw = list_ex (IsDigit T) pw"
  "list_ex (\<lambda>r. \<not> IsUpper T r \<and> \<not> IsLower T r \<and> \<not> IsDigit T r
                  \<and> (IsPunct T r \<or> IsSymbol T r)) pw
     = list_ex (\<lambda>r. IsPunct T r \<or> IsSymbol T r) pw"
  using classes_exclusive [of T] by (auto simp add: list_ex_iff)

lemma fmt_d_8: "fmt_d 8 = ''8''"
  by (simp add: fmt_d_def decimal.simps [of 8] digit_def)

lemma ValidatePassword_eq:
  "ValidatePassword T pw =
     (if len_bytes pw < 8 then Some (Errorf ''password must be at least 8 characters long'')
      else if list_ex (IsUpper T) pw \<and> list_ex (IsLower T) pw \<and> list_ex (IsDigit T) pw
              \<and> list_ex (\<lambda>r. IsPunct T r \<or> IsSymbol T r) pw then None
      else Some (Errorf (''password must contain: '' @ fmt_v
             ((if list_ex (IsUpper T) pw then [] else [''at least one uppercase letter''])
              @ (if list_ex (IsLower T) pw then [] else [''at least one lowercase letter''])
              @ (if list_ex (IsDigit T) pw then [] else [''at least one number''])
              @ (if list_ex (\<lambda>r. IsPunct T r \<or> IsSymbol T r) pw then []
                 else [''at least one special character (!@#$%^&*)''])))))"
  by (simp add: ValidatePassword_def DefaultPasswordRequirements_def Let_def
      check_character_types_flags list_ex_classes fmt_d_8)

lemma RuneLen_pos: "1 \<le> RuneLen r"
  by (simp add: RuneLen_def)

lemma length_le_len_bytes: "length pw \<le> len_bytes pw"
proof (induction pw)
  case Nil
  show ?case by (simp add: len_bytes_def)
next
  case (Cons r pw)
  with RuneLen_pos [of r] show ?case by (simp add: len_bytes_def)
qed

lemma len_bytes_ascii: "\<forall>r\<in>set pw. r < 0x80 \<Longrightarrow> len_bytes pw = length pw"
  by (induction pw) (simp_all add: len_bytes_def RuneLen_def)

lemma hooks_single: "hooks_BeforeCreate [user] = ValidateForRole user"
  by (simp add: BeforeCreate_def split: option.splits)

lemma db_Create_eq:
  "db_Create now serial user tbl =
     (case ValidateForRole user of
        Some e \<Rightarrow> Inl e
      | None \<Rightarrow>
          (case insert_violation tbl (with_defaults now serial user) of
             Some e \<Rightarrow> Inl e
           | None \<Rightarrow> Inr (with_defaults now serial user, tbl @ [with_defaults now serial user])))"
  by (simp add: db_Create_def BeforeCreate_def split: option.splits)

lemma CreateUser_exists:
  "CheckUserExists (creq_Username req) (creq_Email req) tbl = Inr True \<Longrightarrow>
   CreateUser T bcrypt now serial req tbl = (Inl (Errorf ''username or email already exists''), tbl)"
  by (simp add: CreateUser_def)

lemma CreateUser_policy:
  "CheckUserExists (creq_Username req) (creq_Email req) tbl = Inr False \<Longrightarrow>
   ValidatePassword T (creq_Password req) = Some e \<Longrightarrow>
   CreateUser T bcrypt now serial req tbl = (Inl (Wrap ''failed to hash password: '' e), tbl)"
  by (simp add: CreateUser_def HashPassword_def)

lemma CreateUser_bcrypt:
  "CheckUserExists (creq_Username req) (creq_Email req) tbl = Inr False \<Longrightarrow>
   ValidatePassword T (creq_Password req) = None \<Longrightarrow>
   bcrypt (creq_Password req) = Inl e \<Longrightarrow>
   CreateUser T bcrypt now serial req tbl
     = (Inl (Wrap ''failed to hash password: '' (Wrap ''failed to hash password: '' e)), tbl)"
  by (simp add: CreateUser_def HashPassword_def)

lemma CreateUser_hashed:
  "CheckUserExists (creq_Username req) (creq_Email req) tbl = Inr False \<Longrightarrow>
   ValidatePassword T (creq_Password req) = None \<Longrightarrow>
   bcrypt (creq_Password req) = Inr h \<Longrightarrow>
   CreateUser T bcrypt now serial req tbl =
     (case db_Create now serial (assembled_user req h) tbl of
        Inl err \<Rightarrow> (Inl (Wrap ''failed to create user: '' err), tbl)
      | Inr (user', tbl') \<Rightarrow> (Inr user', tbl'))"
  by (simp add: CreateUser_def HashPassword_def assembled_user_def)

lemma with_defaults_PasswordHash [simp]:
  "PasswordHash (with_defaults now serial user) = PasswordHash user"
  by (simp add: with_defaults_def)

lemma assembled_PasswordHash [simp]: "PasswordHash (assembled_user req h) = h"
  by (simp add: assembled_user_def)

lemma CheckUserExists_cases:
  "CheckUserExists n m tbl = Inr True \<or> CheckUserExists n m tbl = Inr False"
  by (simp add: CheckUserExists_def db_Count_def)

lemma CreateUser_Inr_D:
  assumes "CreateUser T bcrypt now serial req tbl = (Inr u', tbl')"
  shows "CheckUserExists (creq_Username req) (creq_Email req) tbl = Inr False
    \<and> ValidatePassword T (creq_Password req) = None
    \<and> bcrypt (creq_Password req) = Inr (PasswordHash u')
    \<and> u' = with_defaults now serial (assembled_user req (PasswordHash u'))
    \<and> tbl' = tbl @ [u']"
proof -
  from CheckUserExists_cases [of "creq_Username req" "creq_Email req" tbl] assms
  have ex: "CheckUserExists (creq_Username req) (creq_Email req) tbl = Inr False"
    by (auto simp add: CreateUser_exists)
  from assms ex have pol: "ValidatePassword T (creq_Password req) = None"
    by (cases "ValidatePassword T (creq_Password req)") (auto simp add: CreateUser_policy)
  from assms ex pol obtain h where h: "bcrypt (creq_Password req) = Inr h"
    by (cases "bcrypt (creq_Password req)") (auto simp add: CreateUser_bcrypt)
  from assms have "u' = with_defaults now serial (assembled_user req h) \<and> tbl' = tbl @ [u']"
    by (auto simp add: CreateUser_hashed [where bcrypt = bcrypt, OF ex pol h] db_Create_eq
        split: option.splits)
  with ex pol h show ?thesis by simp
qed

lemma CreateUser_Inl_D:
  assumes "CreateUser T bcrypt now serial req tbl = (Inl e, tbl')"
  shows "tbl' = tbl"
proof -
  consider "CheckUserExists (creq_Username req) (creq_Email req) tbl = Inr True"
    | e' where "CheckUserExists (creq_Username req) (creq_Email req) tbl = Inr False"
        "ValidatePassword T (creq_Password req) = Some e'"
    | e' where "CheckUserExists (creq_Username req) (creq_Email req) tbl = Inr False"
        "ValidatePassword T (creq_Password req) = None" "bcrypt (creq_Password req) = Inl e'"
    | h where "CheckUserExists (creq_Username req) (creq_Email req) tbl = Inr False"
        "ValidatePassword T (creq_Password req) = None" "bcrypt (creq_Password req) = Inr h"
    using CheckUserExists_cases [of "creq_Username req" "creq_Email req" tbl]
    by (cases "ValidatePassword T (creq_Password req)"; cases "bcrypt (creq_Password req)") auto
  then show ?thesis
  proof cases
    case 1
    with assms show ?thesis by (simp add: CreateUser_exists)
  next
    case 2
    with assms show ?thesis by (simp add: CreateUser_policy)
  next
    case 3
    with assms show ?thesis by (simp add: CreateUser_bcrypt)
  next
    case 4
    with assms show ?thesis
      by (auto simp add: CreateUser_hashed db_Create_eq split: option.splits)
  qed
qed

lemma sample_exists:
  "CheckUserExists ''alice'' ''new@example.com'' sample_table = Inr True"
  "CheckUserExists ''dave'' ''dave@example.com'' sample_table = Inr False"
  by (simp_all add: CheckUserExists_def db_Count_def sample_table_def alice_def bob_def
      carol_def zero_User_def)

lemma request_fields:
  "creq_Username request_taken = ''alice''" "creq_Email request_taken = ''new@example.com''"
  "creq_Password request_taken = [0x61, 0x62, 0x63]"
  "creq_Username request_six_characters = ''dave''"
  "creq_Email request_six_characters = ''dave@example.com''"
  "creq_Password request_six_characters = [0x41, 0x61, 0x31, 0x21, 0xE9, 0xE9]"
  "creq_Username request_conforming = ''dave''"
  "creq_Email request_conforming = ''dave@example.com''"
  "creq_Password request_conforming = [0x41, 0x64, 0x6D, 0x69, 0x6E, 0x31, 0x32, 0x33, 0x21, 0x40, 0x23]"
  by (simp_all add: request_taken_def request_six_characters_def request_conforming_def
      admin_request_def)

lemma latin1_classes:
  "IsUpper T 0x41" "IsLower T 0x61" "IsDigit T 0x31" "IsPunct T 0x21" "IsLower T 0xE9" "IsLower T 0x64"
  "\<not> IsUpper T 0x61" "\<not> IsUpper T 0x62" "\<not> IsUpper T 0x63"
  by (simp_all add: IsUpper_def IsLower_def IsDigit_def IsPunct_def MaxLatin1_def
      properties_def in_ranges_def)

lemma sample_passwords:
  "ValidatePassword T [0x61, 0x62, 0x63]
     = Some (Errorf ''password must be at least 8 characters long'')"
  "ValidatePassword T [0x41, 0x61, 0x31, 0x21, 0xE9, 0xE9] = None"
  "ValidatePassword T [0x41, 0x64, 0x6D, 0x69, 0x6E, 0x31, 0x32, 0x33, 0x21, 0x40, 0x23] = None"
  by (simp_all add: ValidatePassword_eq len_bytes_def RuneLen_def latin1_classes)

lemma admin_insert:
  "ValidateForRole (assembled_user (admin_request n m pw) h) = None"
  "insert_violation sample_table
     (with_defaults 600 4 (assembled_user (admin_request ''dave'' ''dave@example.com'' pw) h))
   = None"
  by (simp_all add: ValidateForRole_def assembled_user_def admin_request_def zero_User_def
      insert_violation_def with_defaults_def role_check_def gender_check_def
      sample_table_def alice_def bob_def carol_def)

lemma six_characters_created:
  "CreateUser no_tables constant_hash 600 4 request_six_characters sample_table =
     (Inr (with_defaults 600 4 (assembled_user request_six_characters ''$2a$10$digest'')),
      sample_table @ [with_defaults 600 4 (assembled_user request_six_characters ''$2a$10$digest'')])"
proof -
  have "CreateUser no_tables constant_hash 600 4 request_six_characters sample_table =
     (case db_Create 600 4 (assembled_user request_six_characters ''$2a$10$digest'') sample_table of
        Inl err \<Rightarrow> (Inl (Wrap ''failed to create user: '' err), sample_table)
      | Inr (user', tbl') \<Rightarrow> (Inr user', tbl'))"
    by (rule CreateUser_hashed)
       (simp_all add: request_fields sample_exists sample_passwords constant_hash_def)
  then show ?thesis
    by (simp add: db_Create_eq admin_insert request_six_characters_def)
qed

lemma ValidatePassword_None_iff:
  "ValidatePassword T pw = None \<longleftrightarrow>
     8 \<le> len_bytes pw \<and> list_ex (IsUpper T) pw \<and> list_ex (IsLower T) pw
     \<and> list_ex (IsDigit T) pw \<and> list_ex (\<lambda>r. IsPunct T r \<or> IsSymbol T r) pw"
  by (simp add: ValidatePassword_eq)

lemma ValidatePassword_Some_Errorf:
  "ValidatePassword T pw = Some e \<Longrightarrow> \<exists>msg. e = Errorf msg"
  by (auto simp add: ValidatePassword_def Let_def split: if_splits prod.splits)

lemma request_weak_fields:
  "creq_Username request_weak = ''dave''" "creq_Email request_weak = ''dave@example.com''"
  "creq_Password request_weak = [0x61, 0x62, 0x63]"
  by (simp_all add: request_weak_def admin_request_def)

text \<open>
  C8 (as stated), refuted at two requests. The first has the password \<open>abc\<close>, which
  violates the policy, and a username that exists: creation fails with
  \<open>username or email already exists\<close>, not with a policy violation, since the existence
  check comes first. The second has a password of six characters, \<open>Aa1!\<close> followed by
  twice U+00E9: its UTF-8 encoding has eight bytes, which is what \<open>len\<close> counts, so the
  policy accepts it and the record is persisted.
\<close>

theorem C8_password_policy_counterexample:
  "ValidatePassword no_tables (creq_Password request_taken)
     = Some (Errorf ''password must be at least 8 characters long'')
   \<and> CreateUser no_tables constant_hash 600 4 request_taken sample_table
       = (Inl (Errorf ''username or email already exists''), sample_table)
   \<and> length (creq_Password request_six_characters) = 6
   \<and> (\<exists>u'. CreateUser no_tables constant_hash 600 4 request_six_characters sample_table
               = (Inr u', sample_table @ [u']))"
proof -
  have "CreateUser no_tables constant_hash 600 4 request_taken sample_table
       = (Inl (Errorf ''username or email already exists''), sample_table)"
    by (rule CreateUser_exists) (simp add: request_fields sample_exists)
  then show ?thesis
    by (simp add: six_characters_created request_fields sample_passwords)
qed

text \<open>
  C8 (amended): the creation path enforces the password policy before hashing. For every
  creation request whose username and email match no existing record: if the UTF-8
  encoding of the password is shorter than 8 bytes, or the password lacks an uppercase
  letter, a lowercase letter, a digit, or a punctuation or symbol character, creation
  fails with \<open>failed to hash password:\<close> followed by the policy violation, whatever the
  hashing function would return, and no record is persisted; if the password has at least
  8 characters and all four classes, the policy accepts it, and when the hashing succeeds
  and the store accepts the record, the record is persisted with the hash as its password
  hash. A request whose username or email exists fails with
  \<open>username or email already exists\<close>. Whenever a record is persisted, its password had
  passed the policy and the record carries the hash returned for it; whenever creation
  fails, nothing is persisted.
\<close>

theorem C8_password_policy:
  "(CheckUserExists (creq_Username req) (creq_Email req) tbl = Inr False \<longrightarrow>
      (len_bytes (creq_Password req) < 8
         \<or> \<not> list_ex (IsUpper T) (creq_Password req)
         \<or> \<not> list_ex (IsLower T) (creq_Password req)
         \<or> \<not> list_ex (IsDigit T) (creq_Password req)
         \<or> \<not> list_ex (\<lambda>r. IsPunct T r \<or> IsSymbol T r) (creq_Password req)
       \<longrightarrow> (\<exists>msg. ValidatePassword T (creq_Password req) = Some (Errorf msg)
              \<and> CreateUser T bcrypt now serial req tbl
                  = (Inl (Wrap ''failed to hash password: '' (Errorf msg)), tbl)))
      \<and> (8 \<le> length (creq_Password req)
           \<and> list_ex (IsUpper T) (creq_Password req)
           \<and> list_ex (IsLower T) (creq_Password req)
           \<and> list_ex (IsDigit T) (creq_Password req)
           \<and> list_ex (\<lambda>r. IsPunct T r \<or> IsSymbol T r) (creq_Password req)
         \<longrightarrow> ValidatePassword T (creq_Password req) = None
             \<and> (\<forall>h. bcrypt (creq_Password req) = Inr h
                    \<and> ValidateForRole (assembled_user req h) = None
                    \<and> insert_violation tbl (with_defaults now serial (assembled_user req h)) = None
                  \<longrightarrow> CreateUser T bcrypt now serial req tbl
                        = (Inr (with_defaults now serial (assembled_user req h)),
                           tbl @ [with_defaults now serial (assembled_user req h)])
                      \<and> PasswordHash (with_defaults now serial (assembled_user req h)) = h)))
   \<and> (CheckUserExists (creq_Username req) (creq_Email req) tbl = Inr True \<longrightarrow>
        CreateUser T bcrypt now serial req tbl
          = (Inl (Errorf ''username or email already exists''), tbl))
   \<and> (\<forall>u' tbl'. CreateUser T bcrypt now serial req tbl = (Inr u', tbl') \<longrightarrow>
         ValidatePassword T (creq_Password req) = None
         \<and> bcrypt (creq_Password req) = Inr (PasswordHash u')
         \<and> tbl' = tbl @ [u'])
   \<and> (\<forall>e tbl'. CreateUser T bcrypt now serial req tbl = (Inl e, tbl') \<longrightarrow> tbl' = tbl)"
proof -
  let ?pw = "creq_Password req"
  have weak: "\<exists>msg. ValidatePassword T ?pw = Some (Errorf msg)
              \<and> CreateUser T bcrypt now serial req tbl
                  = (Inl (Wrap ''failed to hash password: '' (Errorf msg)), tbl)"
    if free: "CheckUserExists (creq_Username req) (creq_Email req) tbl = Inr False"
      and "len_bytes ?pw < 8 \<or> \<not> list_ex (IsUpper T) ?pw \<or> \<not> list_ex (IsLower T) ?pw
           \<or> \<not> list_ex (IsDigit T) ?pw \<or> \<not> list_ex (\<lambda>r. IsPunct T r \<or> IsSymbol T r) ?pw"
  proof -
    from that(2) have "ValidatePassword T ?pw \<noteq> None"
      unfolding ValidatePassword_None_iff by auto
    then obtain e where "ValidatePassword T ?pw = Some e" by blast
    with ValidatePassword_Some_Errorf [of T ?pw e]
    obtain msg where msg: "ValidatePassword T ?pw = Some (Errorf msg)" by blast
    from CreateUser_policy [OF free msg] msg show ?thesis by blast
  qed
  have conforming: "ValidatePassword T ?pw = None"
    if "8 \<le> length ?pw" "list_ex (IsUpper T) ?pw" "list_ex (IsLower T) ?pw"
      "list_ex (IsDigit T) ?pw" "list_ex (\<lambda>r. IsPunct T r \<or> IsSymbol T r) ?pw"
    using that length_le_len_bytes [of ?pw] by (simp add: ValidatePassword_None_iff)
  have created: "CreateUser T bcrypt now serial req tbl
                        = (Inr (with_defaults now serial (assembled_user req h)),
                           tbl @ [with_defaults now serial (assembled_user req h)])
                      \<and> PasswordHash (with_defaults now serial (assembled_user req h)) = h"
    if "CheckUserExists (creq_Username req) (creq_Email req) tbl = Inr False"
      "ValidatePassword T ?pw = None" "bcrypt ?pw = Inr h"
      "ValidateForRole (assembled_user req h) = None"
      "insert_violation tbl (with_defaults now serial (assembled_user req h)) = None" for h
    using that(4,5)
    by (simp add: CreateUser_hashed [where bcrypt = bcrypt, OF that(1-3)] db_Create_eq)
  have taken: "CreateUser T bcrypt now serial req tbl
          = (Inl (Errorf ''username or email already exists''), tbl)"
    if "CheckUserExists (creq_Username req) (creq_Email req) tbl = Inr True"
    using that by (rule CreateUser_exists)
  have stored: "ValidatePassword T ?pw = None \<and> bcrypt ?pw = Inr (PasswordHash u')
         \<and> tbl' = tbl @ [u']"
    if "CreateUser T bcrypt now serial req tbl = (Inr u', tbl')" for u' tbl'
    using CreateUser_Inr_D [OF that] by simp
  have failed: "tbl' = tbl"
    if "CreateUser T bcrypt now serial req tbl = (Inl e, tbl')" for e tbl'
    using that by (rule CreateUser_Inl_D)
  from weak conforming created taken stored failed show ?thesis
    by (intro conjI impI allI; (elim conjE)?) blast+
qed

theorem C8_password_policy_witness:
  "CreateUser no_tables constant_hash 600 4 request_weak sample_table
     = (Inl (Wrap ''failed to hash password: ''
               (Errorf ''password must be at least 8 characters long'')), sample_table)
   \<and> (\<exists>u'. CreateUser no_tables constant_hash 600 4 request_conforming sample_table
               = (Inr u', sample_table @ [u'])
            \<and> PasswordHash u' = ''$2a$10$digest'')"
proof -
  note weak = C8_password_policy [of request_weak sample_table no_tables constant_hash 600 4]
  note good = C8_password_policy [of request_conforming sample_table no_tables constant_hash 600 4]
  have free_weak: "CheckUserExists (creq_Username request_weak) (creq_Email request_weak)
      sample_table = Inr False"
    by (simp add: request_weak_fields sample_exists)
  have short: "len_bytes (creq_Password request_weak) < 8"
    by (simp add: request_weak_fields len_bytes_def RuneLen_def)
  from mp [OF conjunct1 [OF weak] free_weak] short
  obtain msg where msg: "ValidatePassword no_tables (creq_Password request_weak) = Some (Errorf msg)"
    "CreateUser no_tables constant_hash 600 4 request_weak sample_table
       = (Inl (Wrap ''failed to hash password: '' (Errorf msg)), sample_table)"
    by blast
  from msg(1) have "msg = ''password must be at least 8 characters long''"
    by (simp add: request_weak_fields sample_passwords)
  with msg(2) have first: "CreateUser no_tables constant_hash 600 4 request_weak sample_table
     = (Inl (Wrap ''failed to hash password: ''
               (Errorf ''password must be at least 8 characters long'')), sample_table)"
    by simp
  have free_good: "CheckUserExists (creq_Username request_conforming)
      (creq_Email request_conforming) sample_table = Inr False"
    by (simp add: request_fields sample_exists)
  have classes: "8 \<le> length (creq_Password request_conforming)
           \<and> list_ex (IsUpper no_tables) (creq_Password request_conforming)
           \<and> list_ex (IsLower no_tables) (creq_Password request_conforming)
           \<and> list_ex (IsDigit no_tables) (creq_Password request_conforming)
           \<and> list_ex (\<lambda>r. IsPunct no_tables r \<or> IsSymbol no_tables r)
                (creq_Password request_conforming)"
    by (simp add: request_fields latin1_classes)
  have accepted: "constant_hash (creq_Password request_conforming) = Inr ''$2a$10$digest''
       \<and> ValidateForRole (assembled_user request_conforming ''$2a$10$digest'') = None
       \<and> insert_violation sample_table
           (with_defaults 600 4 (assembled_user request_conforming ''$2a$10$digest'')) = None"
    by (simp add: constant_hash_def request_conforming_def admin_insert)
  from mp [OF conjunct2 [OF mp [OF conjunct1 [OF good] free_good]] classes] accepted
  have "CreateUser no_tables constant_hash 600 4 request_conforming sample_table
          = (Inr (with_defaults 600 4 (assembled_user request_conforming ''$2a$10$digest'')),
             sample_table @ [with_defaults 600 4 (assembled_user request_conforming ''$2a$10$digest'')])
        \<and> PasswordHash (with_defaults 600 4 (assembled_user request_conforming ''$2a$10$digest''))
            = ''$2a$10$digest''"
    by blast
  then have second: "\<exists>u'. CreateUser no_tables constant_hash 600 4 request_conforming sample_table
               = (Inr u', sample_table @ [u'])
            \<and> PasswordHash u' = ''$2a$10$digest''"
    by blast
  from first second show ?thesis by (rule conjI)
qed

section \<open>Bulk creation\<close>



lemma validate_all_None:
  "validate_all k users = None \<longleftrightarrow> (\<forall>u\<in>set users. ValidateRoleRequiredFields u = None)"
  by (induction users arbitrary: k) (auto split: option.splits)


lemma concat_batches: "0 < n \<Longrightarrow> concat (batches i n xs) = drop i xs"
proof (induction i n xs rule: batches.induct)
  case (1 i n xs)
  show ?case
  proof (cases "i < length xs")
    case True
    with 1 have IH: "concat (batches (i + n) n xs) = drop (i + n) xs" by simp
    have "take n (drop i xs) @ drop n (drop i xs) = drop i xs"
      by (rule append_take_drop_id)
    then have "take n (drop i xs) @ drop (i + n) xs = drop i xs"
      by (simp add: add.commute)
    with True 1(2) IH show ?thesis
      by (subst batches.simps) simp
  next
    case False
    then show ?thesis by (subst batches.simps) simp
  qed
qed


lemma hooks_all_valid:
  "(\<forall>u\<in>set users. ValidateRoleRequiredFields u = None) \<Longrightarrow> hooks_BeforeCreate users = None"
  by (induction users) (simp_all add: BeforeCreate_def ValidateForRole_eq)

lemma serial_after_Cons:
  "serial_after serial (u # us) = serial_after (if ID u = 0 then Suc serial else serial) us"
  by (simp add: serial_after_def)

lemma insert_rows_append:
  "insert_rows now serial (xs @ ys) tbl =
     (case insert_rows now serial xs tbl of
        Inl e \<Rightarrow> Inl e
      | Inr tbl' \<Rightarrow> insert_rows now (serial_after serial xs) ys tbl')"
proof (induction xs arbitrary: serial tbl)
  case Nil
  show ?case by (simp add: serial_after_def)
next
  case (Cons x xs)
  show ?case
    by (auto simp add: Cons.IH serial_after_Cons split: option.splits sum.splits)
qed

lemma create_batches_concat:
  "(\<forall>b\<in>set bs. hooks_BeforeCreate b = None) \<Longrightarrow>
   create_batches now serial bs tbl = insert_rows now serial (concat bs) tbl"
proof (induction bs arbitrary: serial tbl)
  case Nil
  show ?case by simp
next
  case (Cons b bs)
  then have "hooks_BeforeCreate b = None"
    and IH: "\<And>serial tbl. create_batches now serial bs tbl = insert_rows now serial (concat bs) tbl"
    by simp_all
  then show ?case
    by (simp add: insert_rows_append split: sum.splits)
qed

lemma batches_subset: "b \<in> set (batches i n xs) \<Longrightarrow> set b \<subseteq> set xs"
proof (induction i n xs rule: batches.induct)
  case (1 i n xs)
  from "1.prems" have "i < length xs \<and> 0 < n"
    by (subst (asm) batches.simps) (simp split: if_splits)
  with "1.prems" have "b = take n (drop i xs) \<or> b \<in> set (batches (i + n) n xs)"
    by (subst (asm) batches.simps) simp
  then show ?case
  proof
    assume "b = take n (drop i xs)"
    then show ?thesis
      using set_take_subset [of n "drop i xs"] set_drop_subset [of i xs] by blast
  next
    assume "b \<in> set (batches (i + n) n xs)"
    with 1 \<open>i < length xs \<and> 0 < n\<close> show ?thesis by simp
  qed
qed

lemma db_CreateInBatches_valid:
  assumes "\<forall>u\<in>set users. ValidateRoleRequiredFields u = None"
  shows "db_CreateInBatches now serial users 100 tbl = insert_rows now serial users tbl"
proof -
  have "\<forall>b\<in>set (batches 0 100 users). hooks_BeforeCreate b = None"
  proof
    fix b assume "b \<in> set (batches 0 100 users)"
    then have "set b \<subseteq> set users" by (rule batches_subset)
    with assms show "hooks_BeforeCreate b = None"
      by (intro hooks_all_valid) blast
  qed
  then have "create_batches now serial (batches 0 100 users) tbl
      = insert_rows now serial (concat (batches 0 100 users)) tbl"
    by (rule create_batches_concat)
  then show ?thesis
    by (simp add: db_CreateInBatches_def concat_batches)
qed


lemma non_null_append: "non_null f (xs @ ys) = non_null f xs @ non_null f ys"
  by (induction xs) (simp_all add: non_null_def split: option.splits)

lemma non_null_Cons:
  "non_null f (x # xs) = (case f x of None \<Rightarrow> non_null f xs | Some v \<Rightarrow> v # non_null f xs)"
  by (simp add: non_null_def split: option.splits)

lemma set_non_null: "v \<in> set (non_null f xs) \<longleftrightarrow> Some v \<in> set (map f xs)"
  by (induction xs) (auto simp add: non_null_def split: option.splits)

lemma with_defaults_keeps [simp]:
  "Username (with_defaults now serial u) = Username u"
  "Email (with_defaults now serial u) = Email u"
  "EmployeeID (with_defaults now serial u) = EmployeeID u"
  "StudentID (with_defaults now serial u) = StudentID u"
  "Role (with_defaults now serial u) = Role u"
  "Gender (with_defaults now serial u) = Gender u"
  "DeletedAt (with_defaults now serial u) = DeletedAt u"
  by (simp_all add: with_defaults_def)



lemma BulkCreateUsers_invalid:
  "validate_all 0 users = Some err \<Longrightarrow> BulkCreateUsers now serial users tbl = (Some err, tbl)"
  by (simp add: BulkCreateUsers_def)

lemma BulkCreateUsers_valid:
  assumes "\<forall>u\<in>set users. ValidateRoleRequiredFields u = None"
  shows "BulkCreateUsers now serial users tbl =
     (case insert_rows now serial users tbl of
        Inl err \<Rightarrow> (Some (Wrap ''bulk create failed: '' err), tbl)
      | Inr tbl' \<Rightarrow> (None, tbl'))"
  using assms
  by (simp add: BulkCreateUsers_def validate_all_None [THEN iffD2] db_CreateInBatches_valid)













section \<open>Sequences of write operations\<close>

text \<open>A property that every successful statement of the store preserves holds after
  every write operation of the service, and so after any sequence of them.\<close>

lemma preserved_update:
  "preserved Q \<Longrightarrow> Q tbl \<Longrightarrow> db_Updates mo cond vals now tbl = Inr (k, tbl') \<Longrightarrow> Q tbl'"
  unfolding preserved_def by blast

lemma preserved_delete:
  "preserved Q \<Longrightarrow> Q tbl \<Longrightarrow> db_Delete cond now tbl = Inr (k, tbl') \<Longrightarrow> Q tbl'"
  unfolding preserved_def by blast

lemma preserved_insert:
  "preserved Q \<Longrightarrow> Q tbl \<Longrightarrow> insert_violation tbl row = None \<Longrightarrow> Q (tbl @ [row])"
  unfolding preserved_def by blast

lemma preserved_insert_rows:
  "preserved Q \<Longrightarrow> Q tbl \<Longrightarrow> insert_rows now serial users tbl = Inr tbl' \<Longrightarrow> Q tbl'"
proof (induction users arbitrary: serial tbl)
  case Nil
  then show ?case by simp
next
  case (Cons u users)
  let ?row = "with_defaults now serial u"
  let ?next = "if ID u = 0 then Suc serial else serial"
  from Cons.prems(3) have ok: "insert_violation tbl ?row = None"
    and rest: "insert_rows now ?next users (tbl @ [?row]) = Inr tbl'"
    by (auto split: option.splits if_splits)
  from Cons.prems(1) preserved_insert [OF Cons.prems(1,2) ok] rest show ?case
    by (rule Cons.IH)
qed

lemma preserved_single_update:
  assumes "preserved Q" and "Q tbl"
  shows "Q (snd (case db_Updates mo cond vals now tbl of
        Inl e \<Rightarrow> (Some e, tbl)
      | Inr (rowsAffected, tbl') \<Rightarrow>
          if rowsAffected = 0 then (Some (Errorf ''user not found''), tbl') else (None, tbl')))"
proof (cases "db_Updates mo cond vals now tbl")
  case (Inl e)
  with assms show ?thesis by simp
next
  case (Inr r)
  obtain k tbl' where r: "r = (k, tbl')" by (cases r)
  from preserved_update [OF assms Inr [unfolded r]] Inr r show ?thesis by simp
qed

lemma preserved_single_updates:
  assumes "preserved Q" and "Q tbl"
  shows "Q (snd (UpdateUserPhoto now userID path tbl))"
    and "Q (snd (DeactivateUser now userID tbl))"
    and "Q (snd (ActivateUser now userID tbl))"
  unfolding UpdateUserPhoto_def DeactivateUser_def ActivateUser_def
  by (rule preserved_single_update [OF assms])+

lemma preserved_UpdateUser:
  assumes "preserved Q" and "Q tbl"
  shows "Q (snd (UpdateUser now userID req tbl))"
proof (cases "db_First (\<lambda>u. ID u = userID) tbl")
  case (Inl e)
  with assms show ?thesis by (simp add: UpdateUser_def)
next
  case (Inr user)
  show ?thesis
  proof (cases "db_Updates user (\<lambda>u. ID u = ID user) (updateData req) now tbl")
    case (Inl e)
    with Inr assms show ?thesis by (simp add: UpdateUser_def)
  next
    case upd: (Inr r)
    obtain k tbl' where r: "r = (k, tbl')" by (cases r)
    from preserved_update [OF assms upd [unfolded r]] have "Q tbl'" .
    with Inr upd r show ?thesis
      by (simp add: UpdateUser_def split: sum.splits)
  qed
qed

lemma preserved_DeleteUser:
  assumes "preserved Q" and "Q tbl"
  shows "Q (snd (DeleteUser now userID tbl))"
proof (cases "db_Delete (\<lambda>u. ID u = userID) now tbl")
  case (Inl e)
  with assms show ?thesis by (simp add: DeleteUser_def)
next
  case (Inr r)
  obtain k tbl' where r: "r = (k, tbl')" by (cases r)
  from preserved_delete [OF assms Inr [unfolded r]] Inr r show ?thesis
    by (simp add: DeleteUser_def)
qed

lemma db_Create_Inr_D:
  "db_Create now serial user tbl = Inr (user', tbl') \<Longrightarrow>
   insert_violation tbl user' = None \<and> tbl' = tbl @ [user']"
  by (auto simp add: db_Create_eq split: option.splits)

lemma preserved_db_Create:
  assumes "preserved Q" and "Q tbl"
  shows "Q (snd (case db_Create now serial user tbl of
                 Inl err \<Rightarrow> (f err, tbl)
               | Inr (user', tbl') \<Rightarrow> (g user', tbl')))"
proof (cases "db_Create now serial user tbl")
  case (Inl e)
  with assms show ?thesis by simp
next
  case (Inr r)
  obtain user' tbl' where r: "r = (user', tbl')" by (cases r)
  from db_Create_Inr_D [OF Inr [unfolded r]] preserved_insert [OF assms] Inr r
  show ?thesis by simp
qed

lemma preserved_CreateUser:
  assumes "preserved Q" and "Q tbl"
  shows "Q (snd (CreateUser T bcrypt now serial req tbl))"
proof (cases "CreateUser T bcrypt now serial req tbl")
  case (Pair res tbl')
  show ?thesis
  proof (cases res)
    case (Inl e)
    with Pair CreateUser_Inl_D [of T bcrypt now serial req tbl e tbl'] assms
    show ?thesis by simp
  next
    case (Inr u')
    with Pair have run: "CreateUser T bcrypt now serial req tbl = (Inr u', tbl')" by simp
    from CreateUser_Inr_D [OF run]
    have free: "CheckUserExists (creq_Username req) (creq_Email req) tbl = Inr False"
      and pol: "ValidatePassword T (creq_Password req) = None"
      and h: "bcrypt (creq_Password req) = Inr (PasswordHash u')"
      by simp_all
    show ?thesis
      unfolding CreateUser_hashed [where bcrypt = bcrypt, OF free pol h]
      by (rule preserved_db_Create [OF assms])
  qed
qed

lemma preserved_SeedData:
  assumes "preserved Q" and "Q tbl"
  shows "Q (snd (SeedData T bcrypt now serial tbl))"
proof -
  let ?pw = "[0x41, 0x64, 0x6D, 0x69, 0x6E, 0x31, 0x32, 0x33, 0x21, 0x40, 0x23] :: rune list"
  show ?thesis
  proof (cases "HashPassword T bcrypt ?pw")
    case (Inl e)
    with assms show ?thesis by (simp add: SeedData_def Let_def)
  next
    case (Inr h)
    have "Q (snd (case db_Create now serial
               (zero_User\<lparr>Username := ''admin'', Email := ''admin@pesantren.com'',
                  PasswordHash := h, Role := ''admin'', IsActive := True,
                  FullName := Some ''System Administrator''\<rparr>) tbl of
                 Inl err \<Rightarrow> (Some (Wrap ''failed to create admin user: '' err), tbl)
               | Inr (adminUser', tbl') \<Rightarrow> (None, tbl')))"
      by (rule preserved_db_Create [OF assms])
    with Inr assms show ?thesis by (simp add: SeedData_def Let_def)
  qed
qed

lemma preserved_BulkCreateUsers:
  assumes "preserved Q" and "Q tbl"
  shows "Q (snd (BulkCreateUsers now serial users tbl))"
proof (cases "\<forall>u\<in>set users. ValidateRoleRequiredFields u = None")
  case True
  show ?thesis
  proof (cases "insert_rows now serial users tbl")
    case (Inl e)
    with True assms show ?thesis by (simp add: BulkCreateUsers_valid)
  next
    case (Inr tbl')
    from preserved_insert_rows [OF assms Inr] True Inr show ?thesis
      by (simp add: BulkCreateUsers_valid)
  qed
next
  case False
  then have "validate_all 0 users \<noteq> None" by (simp add: validate_all_None)
  then obtain err where "validate_all 0 users = Some err" by blast
  with assms show ?thesis by (simp add: BulkCreateUsers_invalid)
qed

lemma preserved_apply_operation:
  assumes "preserved Q" and "Q tbl"
  shows "Q (apply_operation op tbl)"
proof (cases op)
  case (Op_CreateUser T b now serial req)
  with assms show ?thesis by (simp add: preserved_CreateUser)
next
  case (Op_UpdateUser now userID req)
  with assms show ?thesis by (simp add: preserved_UpdateUser)
next
  case (Op_UpdateUserPhoto now userID path)
  with assms show ?thesis by (simp add: preserved_single_updates)
next
  case (Op_DeactivateUser now userID)
  with assms show ?thesis by (simp add: preserved_single_updates)
next
  case (Op_ActivateUser now userID)
  with assms show ?thesis by (simp add: preserved_single_updates)
next
  case (Op_DeleteUser now userID)
  with assms show ?thesis by (simp add: preserved_DeleteUser)
next
  case (Op_BulkCreateUsers now serial users)
  with assms show ?thesis by (simp add: preserved_BulkCreateUsers)
next
  case (Op_SeedData T b now serial)
  with assms show ?thesis by (simp add: preserved_SeedData)
qed

lemma preserved_run: "preserved Q \<Longrightarrow> Q tbl \<Longrightarrow> Q (run ops tbl)"
  unfolding run_def
  by (induction ops arbitrary: tbl) (simp_all add: preserved_apply_operation)

subsection \<open>What the statements leave untouched\<close>

lemma set_column_keeps:
  assumes "set_column c x u = Some u'"
  shows "ID u' = ID u \<and> Username u' = Username u \<and> Email u' = Email u
         \<and> DeletedAt u' = DeletedAt u"
  using assms by (cases x) (auto split: if_splits)

lemma set_columns_keeps:
  "set_columns vals u = Inr u' \<Longrightarrow>
   ID u' = ID u \<and> Username u' = Username u \<and> Email u' = Email u \<and> DeletedAt u' = DeletedAt u"
proof (induction vals arbitrary: u)
  case Nil
  then show ?case by simp
next
  case (Cons cv vals)
  obtain c x where cv: "cv = (c, x)" by (cases cv)
  with Cons.prems obtain w where w: "set_column c x u = Some w" "set_columns vals w = Inr u'"
    by (auto split: option.splits)
  from set_column_keeps [OF w(1)] Cons.IH [OF w(2)] show ?case by simp
qed

lemma db_Updates_Inr_map:
  assumes "db_Updates m cond vals now tbl = Inr (k, tbl')"
  shows "\<exists>g. keeps g \<and> (\<forall>v. DeletedAt (g v) = DeletedAt v) \<and> tbl' = map g tbl
           \<and> update_violation (map fst vals) tbl' = None
           \<and> (\<forall>v. g v = v \<or> (\<exists>w. set_columns vals v = Inr w \<and> g v = w\<lparr>UpdatedAt := now\<rparr>))"
proof -
  let ?g = "\<lambda>u. if cond u \<and> DeletedAt u = None
                then (case set_columns vals u of Inl e \<Rightarrow> u | Inr u' \<Rightarrow> u'\<lparr>UpdatedAt := now\<rparr>)
                else u"
  from assms have "tbl' = map ?g tbl" and "update_violation (map fst vals) tbl' = None"
    by (auto simp add: db_Updates_def Let_def split: option.splits sum.splits)
  moreover have each: "ID (?g v) = ID v \<and> Username (?g v) = Username v \<and> Email (?g v) = Email v
          \<and> DeletedAt (?g v) = DeletedAt v" for v
  proof (cases "set_columns vals v")
    case (Inl e)
    then show ?thesis by simp
  next
    case (Inr w)
    from set_columns_keeps [OF Inr] Inr show ?thesis by simp
  qed
  then have "keeps ?g" and "\<forall>v. DeletedAt (?g v) = DeletedAt v"
    unfolding keeps_def by simp_all
  moreover have "\<forall>v. ?g v = v \<or> (\<exists>w. set_columns vals v = Inr w \<and> ?g v = w\<lparr>UpdatedAt := now\<rparr>)"
    by (simp split: sum.splits)
  ultimately show ?thesis by blast
qed

lemma db_Delete_Inr_map:
  assumes "db_Delete cond now tbl = Inr (k, tbl')"
  shows "tbl' = map (\<lambda>u. if cond u \<and> DeletedAt u = None then u\<lparr>DeletedAt := Some now\<rparr> else u) tbl"
  using assms by (simp add: db_Delete_def Let_def)

subsection \<open>A deleted user stays hidden\<close>

lemma hidden_map:
  assumes "hidden i n m tbl" and "keeps g"
  shows "hidden i n m (map g tbl)"
proof -
  from assms(2) have g: "\<And>v. ID (g v) = ID v" "\<And>v. Username (g v) = Username v"
    "\<And>v. Email (g v) = Email v" "\<And>v. DeletedAt v \<noteq> None \<Longrightarrow> DeletedAt (g v) \<noteq> None"
    by (simp_all add: keeps_def)
  have cols: "map ID (map g tbl) = map ID tbl" "map Username (map g tbl) = map Username tbl"
    "map Email (map g tbl) = map Email tbl"
    by (simp_all add: g)
  have "list_all (\<lambda>v. (ID v = i \<or> Username v = n \<or> Email v = m) \<longrightarrow> DeletedAt v \<noteq> None)
          (map g tbl)"
    using assms(1) g(4) by (auto simp add: hidden_def list_all_iff g(1-3))
  with assms(1) show ?thesis
    unfolding hidden_def cols by simp
qed

lemma hidden_insert:
  assumes "hidden i n m tbl" and "insert_violation tbl row = None"
  shows "hidden i n m (tbl @ [row])"
proof -
  from assms(2) have "ID row \<notin> set (map ID tbl)" "Username row \<notin> set (map Username tbl)"
    "Email row \<notin> set (map Email tbl)"
    by (simp_all add: insert_violation_def split: if_splits)
  with assms(1) have "ID row \<noteq> i" "Username row \<noteq> n" "Email row \<noteq> m"
    by (auto simp add: hidden_def)
  with assms(1) show ?thesis
    by (simp add: hidden_def)
qed

lemma preserved_hidden: "preserved (hidden i n m)"
  unfolding preserved_def
proof (intro conjI allI impI)
  fix mo cond vals now tbl k tbl'
  assume "hidden i n m tbl \<and> db_Updates mo cond vals now tbl = Inr (k, tbl')"
  then show "hidden i n m tbl'"
    using db_Updates_Inr_map hidden_map by blast
next
  fix cond now tbl k tbl'
  assume a: "hidden i n m tbl \<and> db_Delete cond now tbl = Inr (k, tbl')"
  have "keeps (\<lambda>u. if cond u \<and> DeletedAt u = None then u\<lparr>DeletedAt := Some now\<rparr> else u)"
    by (simp add: keeps_def)
  with a show "hidden i n m tbl'"
    using db_Delete_Inr_map hidden_map by blast
next
  fix tbl row
  assume "hidden i n m tbl \<and> insert_violation tbl row = None"
  then show "hidden i n m (tbl @ [row])"
    using hidden_insert by blast
qed

lemma hidden_run: "hidden i n m tbl \<Longrightarrow> hidden i n m (run ops tbl)"
  using preserved_hidden by (rule preserved_run)

lemma hidden_lookups:
  assumes "hidden i n m tbl"
  shows "GetUserByID i tbl = Inl (Errorf ''user not found'')"
    and "GetUserByUsername n tbl = Inl (Errorf ''user not found'')"
    and "GetUserByEmail m tbl = Inl (Errorf ''user not found'')"
  using assms
  by (simp_all add: GetUserByID_Inl_iff GetUserByUsername_Inl_iff GetUserByEmail_Inl_iff
      hidden_def list_all_iff)

subsection \<open>The unique indexes\<close>

text \<open>The unique indexes hold in every table that the service's operations build from
  the empty one.\<close>

lemma set_column_other:
  assumes "set_column c x u = Some u'"
  shows "(c \<noteq> ''employee_id'' \<longrightarrow> EmployeeID u' = EmployeeID u)
       \<and> (c \<noteq> ''student_id'' \<longrightarrow> StudentID u' = StudentID u)"
  using assms by (cases x) (auto split: if_splits)

lemma set_columns_other:
  "set_columns vals u = Inr u' \<Longrightarrow>
   (''employee_id'' \<notin> set (map fst vals) \<longrightarrow> EmployeeID u' = EmployeeID u)
   \<and> (''student_id'' \<notin> set (map fst vals) \<longrightarrow> StudentID u' = StudentID u)"
proof (induction vals arbitrary: u)
  case Nil
  then show ?case by simp
next
  case (Cons cv vals)
  obtain c x where cv: "cv = (c, x)" by (cases cv)
  with Cons.prems obtain w where w: "set_column c x u = Some w" "set_columns vals w = Inr u'"
    by (auto split: option.splits)
  from set_column_other [OF w(1)] Cons.IH [OF w(2)] cv show ?case by auto
qed

lemma non_null_Nil [simp]: "non_null f [] = []"
  by (simp add: non_null_def map_filter_def)

lemma non_null_map:
  "(\<And>v. f (g v) = f v) \<Longrightarrow> non_null f (map g tbl) = non_null f tbl"
  by (induction tbl) (simp_all add: non_null_Cons split: option.splits)

lemma distinct_non_null_insert:
  assumes "distinct (non_null f tbl)" and "f row \<noteq> None \<longrightarrow> f row \<notin> set (map f tbl)"
  shows "distinct (non_null f (tbl @ [row]))"
proof (cases "f row")
  case None
  with assms(1) show ?thesis by (simp add: non_null_append non_null_Cons)
next
  case (Some x)
  with assms(2) have "x \<notin> set (non_null f tbl)" by (simp add: set_non_null)
  with assms(1) Some show ?thesis by (simp add: non_null_append non_null_Cons)
qed

lemma preserved_indexes_hold: "preserved indexes_hold"
  unfolding preserved_def
proof (intro conjI allI impI)
  fix mo cond vals now tbl k tbl'
  assume a: "indexes_hold tbl \<and> db_Updates mo cond vals now tbl = Inr (k, tbl')"
  then obtain g where g: "keeps g" "tbl' = map g tbl"
    "update_violation (map fst vals) tbl' = None"
    "\<forall>v. g v = v \<or> (\<exists>w. set_columns vals v = Inr w \<and> g v = w\<lparr>UpdatedAt := now\<rparr>)"
    using db_Updates_Inr_map by blast
  from g(1) have cols: "map ID (map g tbl) = map ID tbl"
    "map Username (map g tbl) = map Username tbl" "map Email (map g tbl) = map Email tbl"
    by (simp_all add: keeps_def)
  have e: "distinct (non_null EmployeeID tbl')"
  proof (cases "''employee_id'' \<in> set (map fst vals)")
    case True
    with g(3) show ?thesis by (simp add: update_violation_def split: if_splits)
  next
    case False
    have "EmployeeID (g v) = EmployeeID v" for v
    proof -
      from g(4) have "g v = v \<or> (\<exists>w. set_columns vals v = Inr w \<and> g v = w\<lparr>UpdatedAt := now\<rparr>)"
        by blast
      then show ?thesis
      proof
        assume "g v = v"
        then show ?thesis by simp
      next
        assume "\<exists>w. set_columns vals v = Inr w \<and> g v = w\<lparr>UpdatedAt := now\<rparr>"
        then obtain w where w: "set_columns vals v = Inr w" "g v = w\<lparr>UpdatedAt := now\<rparr>"
          by blast
        from set_columns_other [OF w(1)] False w(2) show ?thesis by simp
      qed
    qed
    then have "non_null EmployeeID (map g tbl) = non_null EmployeeID tbl"
      by (rule non_null_map)
    with a g(2) show ?thesis by (simp add: indexes_hold_def)
  qed
  have s: "distinct (non_null StudentID tbl')"
  proof (cases "''student_id'' \<in> set (map fst vals)")
    case True
    with g(3) show ?thesis by (simp add: update_violation_def split: if_splits)
  next
    case False
    have "StudentID (g v) = StudentID v" for v
    proof -
      from g(4) have "g v = v \<or> (\<exists>w. set_columns vals v = Inr w \<and> g v = w\<lparr>UpdatedAt := now\<rparr>)"
        by blast
      then show ?thesis
      proof
        assume "g v = v"
        then show ?thesis by simp
      next
        assume "\<exists>w. set_columns vals v = Inr w \<and> g v = w\<lparr>UpdatedAt := now\<rparr>"
        then obtain w where w: "set_columns vals v = Inr w" "g v = w\<lparr>UpdatedAt := now\<rparr>"
          by blast
        from set_columns_other [OF w(1)] False w(2) show ?thesis by simp
      qed
    qed
    then have "non_null StudentID (map g tbl) = non_null StudentID tbl"
      by (rule non_null_map)
    with a g(2) show ?thesis by (simp add: indexes_hold_def)
  qed
  from a e s show "indexes_hold tbl'"
    unfolding indexes_hold_def g(2) cols by simp
next
  fix cond now tbl k tbl'
  assume a: "indexes_hold tbl \<and> db_Delete cond now tbl = Inr (k, tbl')"
  let ?g = "\<lambda>u. if cond u \<and> DeletedAt u = None then u\<lparr>DeletedAt := Some now\<rparr> else u"
  from a have t: "tbl' = map ?g tbl" by (simp add: db_Delete_Inr_map)
  have cols: "map ID (map ?g tbl) = map ID tbl" "map Username (map ?g tbl) = map Username tbl"
    "map Email (map ?g tbl) = map Email tbl"
    by (simp_all add: comp_def if_distrib cong: if_cong)
  have nulls: "non_null EmployeeID (map ?g tbl) = non_null EmployeeID tbl"
    "non_null StudentID (map ?g tbl) = non_null StudentID tbl"
    by (rule non_null_map, simp)+
  from a show "indexes_hold tbl'"
    unfolding indexes_hold_def t cols nulls by simp
next
  fix tbl row
  assume a: "indexes_hold tbl \<and> insert_violation tbl row = None"
  then have new: "ID row \<notin> set (map ID tbl)" "Username row \<notin> set (map Username tbl)"
    "Email row \<notin> set (map Email tbl)"
    "EmployeeID row \<noteq> None \<longrightarrow> EmployeeID row \<notin> set (map EmployeeID tbl)"
    "StudentID row \<noteq> None \<longrightarrow> StudentID row \<notin> set (map StudentID tbl)"
    by (auto simp add: insert_violation_def split: if_splits)
  from a have old: "distinct (non_null EmployeeID tbl)" "distinct (non_null StudentID tbl)"
    by (simp_all add: indexes_hold_def)
  from a new(1-3) distinct_non_null_insert [OF old(1) new(4)]
    distinct_non_null_insert [OF old(2) new(5)]
  show "indexes_hold (tbl @ [row])"
    by (simp add: indexes_hold_def)
qed

lemma indexes_hold_run: "indexes_hold (run ops [])"
proof -
  have "indexes_hold []" by (simp add: indexes_hold_def)
  with preserved_indexes_hold show ?thesis by (rule preserved_run)
qed

section \<open>Deletion\<close>

lemma hidden_after_delete:
  assumes dn: "distinct (map Username tbl)" and de: "distinct (map Email tbl)"
    and u: "u \<in> set tbl" "DeletedAt u = None"
  shows "hidden (ID u) (Username u) (Email u)
           (map (\<lambda>v. if ID v = ID u \<and> DeletedAt v = None then v\<lparr>DeletedAt := Some now\<rparr> else v)
              tbl)"
proof -
  let ?g = "\<lambda>v. if ID v = ID u \<and> DeletedAt v = None then v\<lparr>DeletedAt := Some now\<rparr> else v"
  have g: "ID (?g v) = ID v" "Username (?g v) = Username v" "Email (?g v) = Email v" for v
    by simp_all
  have cols: "map ID (map ?g tbl) = map ID tbl" "map Username (map ?g tbl) = map Username tbl"
    "map Email (map ?g tbl) = map Email tbl"
    by (simp_all add: comp_def if_distrib cong: if_cong)
  have "\<forall>w\<in>set (map ?g tbl).
          (ID w = ID u \<or> Username w = Username u \<or> Email w = Email u) \<longrightarrow> DeletedAt w \<noteq> None"
  proof (rule ball_mapI, rule impI)
    fix v assume v: "v \<in> set tbl"
      and "ID (?g v) = ID u \<or> Username (?g v) = Username u \<or> Email (?g v) = Email u"
    then have "ID v = ID u \<or> Username v = Username u \<or> Email v = Email u"
      unfolding g by blast
    then have "ID v = ID u"
      using uniq_eq [OF dn v u(1)] uniq_eq [OF de v u(1)] by blast
    then show "DeletedAt (?g v) \<noteq> None" by simp
  qed
  then have "list_all (\<lambda>w. (ID w = ID u \<or> Username w = Username u \<or> Email w = Email u)
               \<longrightarrow> DeletedAt w \<noteq> None) (map ?g tbl)"
    by (simp only: list_all_iff)
  moreover from u(1) have "ID u \<in> set (map ID tbl)" "Username u \<in> set (map Username tbl)"
    "Email u \<in> set (map Email tbl)"
    by simp_all
  ultimately show ?thesis
    unfolding hidden_def cols by simp
qed


text \<open>
  C7: deleting an ID that has no live row (no row, or only tombstoned ones) fails with
  \<open>user not found\<close> and leaves the table as it was. Deleting an ID that lookup-by-ID
  finds, in a table whose unique indexes on username and email hold, succeeds and is a
  soft delete: no row is removed, the rows differ from before in their tombstones only,
  and the user's row stays with \<open>deleted_at\<close> set. After it, lookup of that user by
  ID, by username and by email fails with \<open>user not found\<close>, and keeps failing after
  any sequence of the service's write operations (creation, bulk creation, seeding,
  update, photo update, activation, deactivation, deletion), whatever their arguments:
  nothing restores a deleted user.
\<close>

theorem C7_soft_delete:
  "((\<forall>v\<in>set tbl. ID v = i \<longrightarrow> DeletedAt v \<noteq> None) \<longrightarrow>
      DeleteUser now i tbl = (Some (Errorf ''user not found''), tbl))
   \<and> (distinct (map Username tbl) \<and> distinct (map Email tbl) \<and> GetUserByID i tbl = Inr u \<longrightarrow>
      (\<exists>tbl'. DeleteUser now i tbl = (None, tbl')
         \<and> u\<lparr>DeletedAt := Some now\<rparr> \<in> set tbl'
         \<and> map (\<lambda>v. v\<lparr>DeletedAt := None\<rparr>) tbl' = map (\<lambda>v. v\<lparr>DeletedAt := None\<rparr>) tbl
         \<and> GetUserByID i tbl' = Inl (Errorf ''user not found'')
         \<and> GetUserByUsername (Username u) tbl' = Inl (Errorf ''user not found'')
         \<and> GetUserByEmail (Email u) tbl' = Inl (Errorf ''user not found'')
         \<and> (\<forall>ops. GetUserByID i (run ops tbl') = Inl (Errorf ''user not found'')
               \<and> GetUserByUsername (Username u) (run ops tbl') = Inl (Errorf ''user not found'')
               \<and> GetUserByEmail (Email u) (run ops tbl') = Inl (Errorf ''user not found''))))"
proof -
  let ?g = "\<lambda>v. if ID v = i \<and> DeletedAt v = None then v\<lparr>DeletedAt := Some now\<rparr> else v"
  have absent: "DeleteUser now i tbl = (Some (Errorf ''user not found''), tbl)"
    if "\<forall>v\<in>set tbl. ID v = i \<longrightarrow> DeletedAt v \<noteq> None"
    using that by (auto simp add: DeleteUser_eq)
  have present: "\<exists>tbl'. DeleteUser now i tbl = (None, tbl')
         \<and> u\<lparr>DeletedAt := Some now\<rparr> \<in> set tbl'
         \<and> map (\<lambda>v. v\<lparr>DeletedAt := None\<rparr>) tbl' = map (\<lambda>v. v\<lparr>DeletedAt := None\<rparr>) tbl
         \<and> GetUserByID i tbl' = Inl (Errorf ''user not found'')
         \<and> GetUserByUsername (Username u) tbl' = Inl (Errorf ''user not found'')
         \<and> GetUserByEmail (Email u) tbl' = Inl (Errorf ''user not found'')
         \<and> (\<forall>ops. GetUserByID i (run ops tbl') = Inl (Errorf ''user not found'')
               \<and> GetUserByUsername (Username u) (run ops tbl') = Inl (Errorf ''user not found'')
               \<and> GetUserByEmail (Email u) (run ops tbl') = Inl (Errorf ''user not found''))"
    if dn: "distinct (map Username tbl)" and de: "distinct (map Email tbl)"
      and found: "GetUserByID i tbl = Inr u"
  proof -
    from GetUserByID_Inr_D [OF found]
    have u: "u \<in> set tbl" "ID u = i" "DeletedAt u = None" by simp_all
    then have run: "DeleteUser now i tbl = (None, map ?g tbl)"
      by (auto simp add: DeleteUser_eq)
    have "?g u \<in> set (map ?g tbl)" using u(1) by (simp only: set_map) (rule imageI)
    then have kept: "u\<lparr>DeletedAt := Some now\<rparr> \<in> set (map ?g tbl)" using u by simp
    have data: "map (\<lambda>v. v\<lparr>DeletedAt := None\<rparr>) (map ?g tbl) = map (\<lambda>v. v\<lparr>DeletedAt := None\<rparr>) tbl"
      by (simp add: comp_def if_distrib cong: if_cong)
    have gone: "hidden i (Username u) (Email u) (map ?g tbl)"
      using hidden_after_delete [OF dn de u(1) u(3), of now] unfolding u(2) .
    note at_once = hidden_lookups [OF gone]
    have later: "GetUserByID i (run ops (map ?g tbl)) = Inl (Errorf ''user not found'')
               \<and> GetUserByUsername (Username u) (run ops (map ?g tbl))
                   = Inl (Errorf ''user not found'')
               \<and> GetUserByEmail (Email u) (run ops (map ?g tbl))
                   = Inl (Errorf ''user not found'')" for ops
      using hidden_lookups [OF hidden_run [OF gone, of ops]] by (intro conjI)
    from run kept data at_once later show ?thesis by blast
  qed
  from absent present show ?thesis by blast
qed

theorem C7_soft_delete_witness:
  "DeleteUser 300 9 sample_table = (Some (Errorf ''user not found''), sample_table)
   \<and> GetUserByID 2 sample_table = Inr bob
   \<and> (\<exists>tbl'. DeleteUser 300 2 sample_table = (None, tbl')
         \<and> bob\<lparr>DeletedAt := Some 300\<rparr> \<in> set tbl'
         \<and> GetUserByID 2 tbl' = Inl (Errorf ''user not found'')
         \<and> GetUserByUsername ''bob'' tbl' = Inl (Errorf ''user not found'')
         \<and> GetUserByEmail ''bob@example.com'' tbl' = Inl (Errorf ''user not found'')
         \<and> GetUserByUsername ''bob''
              (run [Op_ActivateUser 400 2,
                    Op_CreateUser no_tables constant_hash 600 4 request_conforming,
                    Op_UpdateUser 700 2 phone_only] tbl')
             = Inl (Errorf ''user not found''))"
proof -
  have none: "\<forall>v\<in>set sample_table. ID v = 9 \<longrightarrow> DeletedAt v \<noteq> None"
    by (simp add: sample_table_def alice_def bob_def carol_def zero_User_def)
  have absent: "DeleteUser 300 9 sample_table = (Some (Errorf ''user not found''), sample_table)"
    using conjunct1 [OF C7_soft_delete [of sample_table 9 300 bob]] none by (rule mp)
  have "\<exists>tbl'. DeleteUser 300 2 sample_table = (None, tbl')
         \<and> bob\<lparr>DeletedAt := Some 300\<rparr> \<in> set tbl'
         \<and> map (\<lambda>v. v\<lparr>DeletedAt := None\<rparr>) tbl' = map (\<lambda>v. v\<lparr>DeletedAt := None\<rparr>) sample_table
         \<and> GetUserByID 2 tbl' = Inl (Errorf ''user not found'')
         \<and> GetUserByUsername (Username bob) tbl' = Inl (Errorf ''user not found'')
         \<and> GetUserByEmail (Email bob) tbl' = Inl (Errorf ''user not found'')
         \<and> (\<forall>ops. GetUserByID 2 (run ops tbl') = Inl (Errorf ''user not found'')
               \<and> GetUserByUsername (Username bob) (run ops tbl') = Inl (Errorf ''user not found'')
               \<and> GetUserByEmail (Email bob) (run ops tbl') = Inl (Errorf ''user not found''))"
    using conjunct2 [OF C7_soft_delete [of sample_table 2 300 bob]]
      conjI [OF sample_lookup(2) conjI [OF sample_lookup(3) sample_lookup(1)]]
    by (rule mp)
  then obtain tbl' where t: "DeleteUser 300 2 sample_table = (None, tbl')"
    "bob\<lparr>DeletedAt := Some 300\<rparr> \<in> set tbl'"
    "GetUserByID 2 tbl' = Inl (Errorf ''user not found'')"
    "GetUserByUsername (Username bob) tbl' = Inl (Errorf ''user not found'')"
    "GetUserByEmail (Email bob) tbl' = Inl (Errorf ''user not found'')"
    "\<And>ops. GetUserByUsername (Username bob) (run ops tbl') = Inl (Errorf ''user not found'')"
    by blast
  from t(1-5) t(6) [of "[Op_ActivateUser 400 2,
                    Op_CreateUser no_tables constant_hash 600 4 request_conforming,
                    Op_UpdateUser 700 2 phone_only]"]
  have present: "\<exists>tbl'. DeleteUser 300 2 sample_table = (None, tbl')
         \<and> bob\<lparr>DeletedAt := Some 300\<rparr> \<in> set tbl'
         \<and> GetUserByID 2 tbl' = Inl (Errorf ''user not found'')
         \<and> GetUserByUsername ''bob'' tbl' = Inl (Errorf ''user not found'')
         \<and> GetUserByEmail ''bob@example.com'' tbl' = Inl (Errorf ''user not found'')
         \<and> GetUserByUsername ''bob''
              (run [Op_ActivateUser 400 2,
                    Op_CreateUser no_tables constant_hash 600 4 request_conforming,
                    Op_UpdateUser 700 2 phone_only] tbl')
             = Inl (Errorf ''user not found'')"
    unfolding sample_lookup(5,6) by blast
  from absent sample_lookup(1) present show ?thesis by (intro conjI)
qed

end
